theory Spec2Isabelle
  imports Complex_Main "HOL-Library.Sublist"
begin

section \<open>The browser-side controller of the download page (static/js/script.js)\<close>

text \<open>
  The source file holds two listings of the class \<open>YouTubeDownloader\<close>: the first one
  (lines 1 to 279) reports through \<open>alert\<close> and looks page elements up without a null
  check, the second one (lines 280 to 870) reports through notifications, guards most
  element lookups and knows a second shape of the progress response.  A definition
  without a suffix embeds the method of the second listing; the suffix \<open>_v1\<close> marks the
  method of the first listing where the two differ.

  Strings are lists of code units below 256; numbers are the rational values of finite
  doubles.  The page is a record of the elements the script looks up by id, an element
  that the page does not contain being \<open>None\<close>.
\<close>

subsection \<open>Strings\<close>

text \<open>\<open>s.includes(t)\<close>: \<open>t\<close> starts at some position of \<open>s\<close>.\<close>

fun js_includes :: "string \<Rightarrow> string \<Rightarrow> bool" where
  "js_includes [] t = (t = [])"
| "js_includes (c # cs) t = (prefix t (c # cs) \<or> js_includes cs t)"

text \<open>\<open>s.trim()\<close>: white space and line terminators are dropped at both ends.\<close>

definition white_space :: "char \<Rightarrow> bool" where
  "white_space c = (c \<in> {CHR 0x09, CHR 0x0A, CHR 0x0B, CHR 0x0C, CHR 0x0D, CHR 0x20, CHR 0xA0})"

definition trim :: "string \<Rightarrow> string" where
  "trim s = rev (dropWhile white_space (rev (dropWhile white_space s)))"

text \<open>\<open>s.replace(/c/g, r)\<close> for a single character \<open>c\<close>.\<close>

definition replace_all :: "char \<Rightarrow> string \<Rightarrow> string \<Rightarrow> string" where
  "replace_all c r s = concat (map (\<lambda>x. if x = c then r else [x]) s)"

text \<open>The decimal numeral of a natural number and of an integer.\<close>

fun dec :: "nat \<Rightarrow> string" where
  "dec n = (if n < 10 then [''0123456789'' ! n]
            else dec (n div 10) @ [''0123456789'' ! (n mod 10)])"

definition int_text :: "int \<Rightarrow> string" where
  "int_text i = (if i < 0 then ''-'' @ dec (nat (- i)) else dec (nat i))"

text \<open>String concatenation with a value that may be \<open>undefined\<close>.\<close>

definition str :: "string option \<Rightarrow> string" where
  "str v = (case v of None \<Rightarrow> ''undefined'' | Some t \<Rightarrow> t)"

text \<open>The truth value of a string that may be \<open>undefined\<close>: the empty string is falsy.\<close>

definition truthy :: "string option \<Rightarrow> bool" where
  "truthy v = (case v of None \<Rightarrow> False | Some t \<Rightarrow> t \<noteq> [])"

subsection \<open>Numbers\<close>

text \<open>
  A division of two doubles yields the double nearest to the exact quotient, ties going
  to the even significand.  \<open>binary64_ge1\<close> rounds an exact value of at least 1 to 53
  significant bits; \<open>formatViews\<close> divides only when the quotient is at least 1.
\<close>

fun ilog2 :: "nat \<Rightarrow> nat" where
  "ilog2 n = (if n < 2 then 0 else Suc (ilog2 (n div 2)))"

definition round_half_even :: "rat \<Rightarrow> int" where
  "round_half_even x =
     (let f = \<lfloor>x\<rfloor>; d = x - of_int f
      in if d < 1 / 2 then f else if 1 / 2 < d then f + 1 else if even f then f else f + 1)"

definition binary64_ge1 :: "rat \<Rightarrow> rat" where
  "binary64_ge1 x =
     (let e = ilog2 (nat \<lfloor>x\<rfloor>)
      in of_int (round_half_even (x * 2 ^ 52 / 2 ^ e)) * 2 ^ e / 2 ^ 52)"

text \<open>
  \<open>x.toFixed(1)\<close> for \<open>0 \<le> x < 10^21\<close>: the integer \<open>n\<close> with \<open>n / 10\<close> nearest to \<open>x\<close>,
  the larger one of two, printed with one digit after the point.  Outside that range
  the method prints a sign or an exponent, which is not modelled: \<open>None\<close>.
\<close>

definition toFixed1 :: "rat \<Rightarrow> string option" where
  "toFixed1 x =
     (if 0 \<le> x \<and> x < 10 ^ 21
      then (let n = nat \<lfloor>10 * x + 1 / 2\<rfloor> in Some (dec (n div 10) @ ''.'' @ dec (n mod 10)))
      else None)"

text \<open>\<open>Math.round\<close>: the nearest integer, a tie going up.\<close>

definition Math_round :: "rat \<Rightarrow> int" where
  "Math_round x = \<lfloor>x + 1 / 2\<rfloor>"

subsection \<open>formatViews\<close>

text \<open>
  The formatter returns a string for a count of at least 1000 and the number itself
  below; \<open>displayVideoInfo\<close> assigns the result to \<open>textContent\<close>, which turns a
  number into its numeral (modelled for integers below \<open>10^21\<close>).
\<close>

datatype views = Views_text string | Views_number rat

definition suffixed :: "rat \<Rightarrow> string \<Rightarrow> views option" where
  "suffixed q u = map_option (\<lambda>t. Views_text (t @ u)) (toFixed1 (binary64_ge1 q))"

definition formatViews :: "rat \<Rightarrow> views option" where
  "formatViews v =
     (if 10 ^ 9 \<le> v then suffixed (v / 10 ^ 9) ''B''
      else if 10 ^ 6 \<le> v then suffixed (v / 10 ^ 6) ''M''
      else if 10 ^ 3 \<le> v then suffixed (v / 10 ^ 3) ''K''
      else Some (Views_number v))"

definition formatViews_v1 :: "rat \<Rightarrow> views option" where
  "formatViews_v1 v =
     (if 10 ^ 6 \<le> v then suffixed (v / 10 ^ 6) ''M''
      else if 10 ^ 3 \<le> v then suffixed (v / 10 ^ 3) ''K''
      else Some (Views_number v))"

definition textContent_of :: "views \<Rightarrow> string option" where
  "textContent_of r =
     (case r of
        Views_text t \<Rightarrow> Some t
      | Views_number v \<Rightarrow>
          (if of_int \<lfloor>v\<rfloor> = v \<and> \<bar>v\<bar> < 10 ^ 21 then Some (int_text \<lfloor>v\<rfloor>) else None))"

text \<open>The text that \<open>displayVideoInfo\<close> puts into the element \<open>videoViews\<close>.\<close>

definition videoViews_text :: "rat \<Rightarrow> string option" where
  "videoViews_text v = Option.bind (formatViews v) textContent_of"

definition videoViews_text_v1 :: "rat \<Rightarrow> string option" where
  "videoViews_text_v1 v = Option.bind (formatViews_v1 v) textContent_of"

subsection \<open>isValidYouTubeUrl\<close>

text \<open>
  The three patterns use literals, optional groups, alternatives, \<open>.+\<close> and \<open>$\<close>.
  All of them start with \<open>^\<close>, so \<open>test\<close> asks for a match that begins at the first
  character.  \<open>rmatch r s\<close> lists what is left of \<open>s\<close> after each way of matching \<open>r\<close>
  at its beginning; the dot matches everything but a line terminator.
\<close>

datatype regexp =
    Lit string
  | Dot_plus
  | End_of_input
  | Opt regexp
  | Alt regexp regexp
  | Seq regexp regexp

definition line_terminator :: "char \<Rightarrow> bool" where
  "line_terminator c = (c = CHR 0x0A \<or> c = CHR 0x0D)"

fun dot_plus :: "string \<Rightarrow> string list" where
  "dot_plus [] = []"
| "dot_plus (c # cs) = (if line_terminator c then [] else cs # dot_plus cs)"

fun rmatch :: "regexp \<Rightarrow> string \<Rightarrow> string list" where
  "rmatch (Lit l) s = (if prefix l s then [drop (length l) s] else [])"
| "rmatch Dot_plus s = dot_plus s"
| "rmatch End_of_input s = (if s = [] then [s] else [])"
| "rmatch (Opt r) s = rmatch r s @ [s]"
| "rmatch (Alt a b) s = rmatch a s @ rmatch b s"
| "rmatch (Seq a b) s = concat (map (rmatch b) (rmatch a s))"

definition test :: "regexp \<Rightarrow> string \<Rightarrow> bool" where
  "test r s = (rmatch r s \<noteq> [])"

text \<open>\<open>https?:\/\/\<close>\<close>

definition https :: regexp where
  "https = Seq (Lit ''http'') (Seq (Opt (Lit ''s'')) (Lit ''://''))"

text \<open>\<open>/^(https?:\/\/)?(www\.)?(youtube\.com|youtu\.?be)\/.+$/\<close>\<close>

definition pattern1 :: regexp where
  "pattern1 = Seq (Opt https) (Seq (Opt (Lit ''www.''))
     (Seq (Alt (Lit ''youtube.com'') (Seq (Lit ''youtu'') (Seq (Opt (Lit ''.'')) (Lit ''be''))))
       (Seq (Lit ''/'') (Seq Dot_plus End_of_input))))"

text \<open>\<open>/^https?:\/\/(youtu\.be\/|(www\.)?youtube\.com\/(watch|embed|v)\/)/\<close>\<close>

definition pattern2 :: regexp where
  "pattern2 = Seq https
     (Alt (Lit ''youtu.be/'')
          (Seq (Opt (Lit ''www.'')) (Seq (Lit ''youtube.com/'')
             (Seq (Alt (Lit ''watch'') (Alt (Lit ''embed'') (Lit ''v''))) (Lit ''/'')))))"

text \<open>\<open>/^https?:\/\/music\.youtube\.com\/watch\?v=/\<close>\<close>

definition pattern3 :: regexp where
  "pattern3 = Seq https (Lit ''music.youtube.com/watch?v='')"

definition isValidYouTubeUrl :: "string \<Rightarrow> bool" where
  "isValidYouTubeUrl url = list_ex (\<lambda>p. test p url) [pattern1, pattern2, pattern3]"

text \<open>
  What a match is, without the search: \<open>matches r m t\<close> says that \<open>r\<close> matches the
  text \<open>m\<close> when \<open>t\<close> follows it.
\<close>

fun matches :: "regexp \<Rightarrow> string \<Rightarrow> string \<Rightarrow> bool" where
  "matches (Lit l) m t = (m = l)"
| "matches Dot_plus m t = (m \<noteq> [] \<and> (\<forall>c\<in>set m. \<not> line_terminator c))"
| "matches End_of_input m t = (m = [] \<and> t = [])"
| "matches (Opt a) m t = (m = [] \<or> matches a m t)"
| "matches (Alt a b) m t = (matches a m t \<or> matches b m t)"
| "matches (Seq a b) m t = (\<exists>m1 m2. m = m1 @ m2 \<and> matches a m1 (m2 @ t) \<and> matches b m2 t)"

subsection \<open>escapeHtml\<close>

text \<open>
  The second listing assigns the string to \<open>textContent\<close> of a fresh \<open>div\<close> and reads
  \<open>innerHTML\<close> back: the browser serialises the text node, replacing the ampersand, the
  two angle brackets and the no-break space.  The first listing replaces five characters
  one after the other, the ampersand first.
\<close>

definition escapeHtml :: "string \<Rightarrow> string" where
  "escapeHtml s = concat (map (\<lambda>c.
      if c = CHR ''&'' then ''&amp;''
      else if c = CHR ''<'' then ''&lt;''
      else if c = CHR ''>'' then ''&gt;''
      else if c = CHR 0xA0 then ''&nbsp;''
      else [c]) s)"

definition escapeHtml_v1 :: "string \<Rightarrow> string" where
  \<open>escapeHtml_v1 s =
     replace_all (CHR 0x27) ''&#039;''
       (replace_all (CHR ''"'') ''&quot;''
         (replace_all (CHR ''>'') ''&gt;''
           (replace_all (CHR ''<'') ''&lt;''
             (replace_all (CHR ''&'') ''&amp;'' s))))\<close>

subsection \<open>displayDownloads\<close>

text \<open>
  An entry of the list that \<open>/downloads-list\<close> returns.  \<open>formatFileSize\<close> (a logarithm
  in floating point) and \<open>formatDate\<close> (the locale of the browser) are parameters of the
  renderer; they are only called when the server sent no formatted text.
\<close>

record library_entry =
  filename :: string
  name :: string
  size_bytes :: rat
  size_formatted :: "string option"
  modified :: rat
  modified_formatted :: "string option"
  duration_formatted :: "string option"

text \<open>\<open>a || b\<close> for a string \<open>a\<close> that may be \<open>undefined\<close>.\<close>

definition or_else :: "string option \<Rightarrow> string \<Rightarrow> string" where
  "or_else v alt = (case v of None \<Rightarrow> alt | Some t \<Rightarrow> if t = [] then alt else t)"

definition empty_state :: string where
  \<open>empty_state = ''<div class="empty-state"><i class="fas fa-music"></i><p>No downloads yet.</p></div>''\<close>

text \<open>
  The template of one entry, cut at the three buttons: \<open>download_info\<close> is the text up
  to the play button, each button runs to the end of its line.
\<close>

definition download_info :: "(rat \<Rightarrow> string) \<Rightarrow> (rat \<Rightarrow> string) \<Rightarrow> library_entry \<Rightarrow> string" where
  \<open>download_info formatFileSize formatDate d =
     ''\<newline>''
       @ ''            <div class="download-item">\<newline>''
       @ ''                <div class="download-info">\<newline>''
       @ ''                    <h4>''
       @ escapeHtml (name d)
       @ ''</h4>\<newline>''
       @ ''                    <div class="download-meta">\<newline>''
       @ ''                        <span><i class="fas fa-hdd"></i> ''
       @ or_else (size_formatted d) (formatFileSize (size_bytes d))
       @ ''</span>\<newline>''
       @ ''                        <span><i class="fas fa-calendar"></i> ''
       @ or_else (modified_formatted d) (formatDate (modified d))
       @ ''</span>\<newline>''
       @ ''                    </div>\<newline>''
       @ ''                </div>\<newline>''
       @ ''                <div class="download-actions">\<newline>''\<close>

definition play_button :: "library_entry \<Rightarrow> string" where
  \<open>play_button d =
     ''                    <button class="action-btn play-btn" onclick="playFile(''
       @ [CHR 0x27]
       @ filename d
       @ [CHR 0x27]
       @ '', ''
       @ [CHR 0x27]
       @ escapeHtml (name d)
       @ [CHR 0x27]
       @ '')">\<newline>''
       @ ''                        <i class="fas fa-play"></i> Play\<newline>''
       @ ''                    </button>\<newline>''\<close>

definition download_button :: "library_entry \<Rightarrow> string" where
  \<open>download_button d =
     ''                    <button class="action-btn download-btn" onclick="downloadFile(''
       @ [CHR 0x27]
       @ filename d
       @ [CHR 0x27]
       @ '')">\<newline>''
       @ ''                        <i class="fas fa-download"></i> Download\<newline>''
       @ ''                    </button>\<newline>''\<close>

definition delete_button :: "library_entry \<Rightarrow> string" where
  \<open>delete_button d =
     ''                    <button class="action-btn delete-btn" onclick="deleteFile(''
       @ [CHR 0x27]
       @ filename d
       @ [CHR 0x27]
       @ '')">\<newline>''
       @ ''                        <i class="fas fa-trash"></i> Delete\<newline>''
       @ ''                    </button>\<newline>''\<close>

definition download_item :: "(rat \<Rightarrow> string) \<Rightarrow> (rat \<Rightarrow> string) \<Rightarrow> library_entry \<Rightarrow> string" where
  \<open>download_item formatFileSize formatDate d =
     download_info formatFileSize formatDate d
       @ play_button d
       @ download_button d
       @ delete_button d
       @ ''                </div>\<newline>''
       @ ''            </div>\<newline>''
       @ ''        ''\<close>

text \<open>The same for the first listing, which shows the duration and keeps each button on one line.\<close>

definition download_info_v1 :: "(rat \<Rightarrow> string) \<Rightarrow> (rat \<Rightarrow> string) \<Rightarrow> library_entry \<Rightarrow> string" where
  \<open>download_info_v1 formatFileSize formatDate d =
     ''\<newline>''
       @ ''            <div class="download-item">\<newline>''
       @ ''                <div class="download-info">\<newline>''
       @ ''                    <h4>''
       @ escapeHtml_v1 (name d)
       @ ''</h4>\<newline>''
       @ ''                    <div class="download-meta">\<newline>''
       @ ''                        <span><i class="fas fa-hdd"></i> ''
       @ or_else (size_formatted d) (formatFileSize (size_bytes d))
       @ ''</span>\<newline>''
       @ ''                        <span><i class="fas fa-clock"></i> ''
       @ or_else (duration_formatted d) ''Unknown''
       @ ''</span>\<newline>''
       @ ''                        <span><i class="fas fa-calendar"></i> ''
       @ or_else (modified_formatted d) (formatDate (modified d))
       @ ''</span>\<newline>''
       @ ''                    </div>\<newline>''
       @ ''                </div>\<newline>''
       @ ''                <div class="download-actions">\<newline>''\<close>

definition play_button_v1 :: "library_entry \<Rightarrow> string" where
  \<open>play_button_v1 d =
     ''                    <button class="action-btn play-btn" onclick="playFile(''
       @ [CHR 0x27]
       @ filename d
       @ [CHR 0x27]
       @ '', ''
       @ [CHR 0x27]
       @ escapeHtml_v1 (name d)
       @ [CHR 0x27]
       @ '')"><i class="fas fa-play"></i> Play</button>\<newline>''\<close>

definition download_button_v1 :: "library_entry \<Rightarrow> string" where
  \<open>download_button_v1 d =
     ''                    <button class="action-btn download-btn" onclick="downloadFile(''
       @ [CHR 0x27]
       @ filename d
       @ [CHR 0x27]
       @ '')"><i class="fas fa-download"></i> Download</button>\<newline>''\<close>

definition delete_button_v1 :: "library_entry \<Rightarrow> string" where
  \<open>delete_button_v1 d =
     ''                    <button class="action-btn delete-btn" onclick="deleteFile(''
       @ [CHR 0x27]
       @ filename d
       @ [CHR 0x27]
       @ '')"><i class="fas fa-trash"></i> Delete</button>\<newline>''\<close>

definition download_item_v1 :: "(rat \<Rightarrow> string) \<Rightarrow> (rat \<Rightarrow> string) \<Rightarrow> library_entry \<Rightarrow> string" where
  \<open>download_item_v1 formatFileSize formatDate d =
     download_info_v1 formatFileSize formatDate d
       @ play_button_v1 d
       @ download_button_v1 d
       @ delete_button_v1 d
       @ ''                </div>\<newline>''
       @ ''            </div>\<newline>''
       @ ''        ''\<close>

text \<open>
  \<open>displayDownloads\<close> works on \<open>innerHTML\<close> of the element \<open>downloadsList\<close>.  The second
  listing returns when the element is missing and shows the placeholder when the list
  is missing or empty; the first listing checks neither.  The result \<open>None\<close> says that
  the page has no such element and nothing was rendered (in the first listing the
  assignment then raises a TypeError).
\<close>

definition displayDownloads ::
  "(rat \<Rightarrow> string) \<Rightarrow> (rat \<Rightarrow> string) \<Rightarrow> library_entry list option \<Rightarrow> string option \<Rightarrow> string option" where
  "displayDownloads formatFileSize formatDate downloads list =
     (case list of
        None \<Rightarrow> None
      | Some old \<Rightarrow>
          (case downloads of
             None \<Rightarrow> Some empty_state
           | Some ds \<Rightarrow>
               if ds = [] then Some empty_state
               else Some (concat (map (download_item formatFileSize formatDate) ds))))"

definition displayDownloads_v1 ::
  "(rat \<Rightarrow> string) \<Rightarrow> (rat \<Rightarrow> string) \<Rightarrow> library_entry list \<Rightarrow> string option \<Rightarrow> string option" where
  "displayDownloads_v1 formatFileSize formatDate downloads list =
     (case list of
        None \<Rightarrow> None
      | Some old \<Rightarrow>
          if downloads = [] then Some empty_state
          else Some (concat (map (download_item_v1 formatFileSize formatDate) downloads)))"

subsection \<open>The page and the state of the controller\<close>

record button =
  disabled :: bool
  innerHTML :: string

text \<open>The audio element: \<open>src\<close> is the attribute as the script assigned it.\<close>

record audio =
  src :: "string option"
  paused :: bool
  currentTime :: rat

text \<open>
  What the script last assigned to \<open>style.width\<close> of the progress bar: \<open>Percent x\<close>
  stands for the text of the number \<open>x\<close> followed by a percent sign,
  \<open>Percent_undefined\<close> for the text \<open>undefined%\<close>.
\<close>

datatype width = Width_initial | Percent rat | Percent_undefined

text \<open>
  A notification element in the body of the page: the message and the type that
  \<open>showNotification\<close> received, or the file that \<open>showAlreadyDownloaded\<close> offers.
\<close>

datatype notice = Notification string string | Already_downloaded string

record notification =
  nid :: nat
  notice :: notice

text \<open>The callbacks that the script passes to \<open>setTimeout\<close>, with their delay in ms.\<close>

datatype timeout_action = Hide_progress_and_clear_id | Remove_notification nat

record timer =
  handle :: nat
  delay :: nat
  action :: timeout_action

text \<open>
  The controller's two fields, the timers of the browser, the requests that await a
  reply, the elements of the page (\<open>True\<close> in a section: it carries the class
  \<open>hidden\<close>), and what the user was told.  \<open>intervals\<close> holds the handles of the
  running intervals whose callback is the one of \<open>monitorProgress\<close>.
\<close>

record state =
  currentDownloadId :: "string option"
  progressInterval :: "nat option"
  intervals :: "nat list"
  timeouts :: "timer list"
  next_handle :: nat
  polls_in_flight :: "string option list"
  downloads_in_flight :: nat
  list_requests :: nat
  downloadBtn :: "button option"
  loadingSpinner :: "bool option"
  progressSection :: "bool option"
  progressFill :: "width option"
  progressText :: "string option"
  progressStatus :: "string option"
  audioPlayer :: "audio option"
  audioPlayerSection :: "bool option"
  nowPlayingTitle :: "string option"
  notifications :: "notification list"
  alerts :: "string list"
  console :: "string list"

text \<open>The replies of the server, the fields typed as section 6 of the specification lists them.\<close>

record progress_response =
  finished :: "bool option"
  progress :: "rat option"
  status :: "string option"
  error :: "string option"

text \<open>\<open>Poll_failed\<close>: \<open>fetch\<close> or \<open>res.json()\<close> rejected.\<close>

datatype poll_outcome = Poll_failed | Poll_json progress_response

record download_data =
  success :: bool
  download_id :: "string option"
  data_error :: "string option"
  cookie_status :: "string option"
  existing_file :: "string option"

datatype download_outcome = Download_failed | Download_json download_data

datatype delete_outcome = Delete_failed | Delete_json bool "string option"

subsection \<open>Timers\<close>

definition setTimeout :: "timeout_action \<Rightarrow> nat \<Rightarrow> state \<Rightarrow> state" where
  "setTimeout a ms s =
     s\<lparr>timeouts := timeouts s @ [\<lparr>handle = next_handle s, delay = ms, action = a\<rparr>],
       next_handle := Suc (next_handle s)\<rparr>"

text \<open>
  \<open>clearInterval(h)\<close>: nothing happens for \<open>null\<close> or a handle that is not active;
  intervals and timeouts share their handles.
\<close>

definition clearInterval :: "nat option \<Rightarrow> state \<Rightarrow> state" where
  "clearInterval h s =
     (case h of
        None \<Rightarrow> s
      | Some k \<Rightarrow> s\<lparr>intervals := removeAll k (intervals s),
                     timeouts := filter (\<lambda>t. handle t \<noteq> k) (timeouts s)\<rparr>)"

definition console_error :: "string \<Rightarrow> state \<Rightarrow> state" where
  "console_error m s = s\<lparr>console := console s @ [m]\<rparr>"

subsection \<open>Feedback to the user\<close>

text \<open>
  \<open>showNotification\<close> appends an element to the body and removes it after 5000 ms;
  the handle of that timer serves as the identity of the element.
\<close>

definition showNotification :: "string \<Rightarrow> string \<Rightarrow> state \<Rightarrow> state" where
  "showNotification msg type s =
     setTimeout (Remove_notification (next_handle s)) 5000
       (s\<lparr>notifications := notifications s @ [\<lparr>nid = next_handle s, notice = Notification msg type\<rparr>]\<rparr>)"

definition showError :: "string \<Rightarrow> state \<Rightarrow> state" where
  "showError msg s = showNotification msg ''error'' s"

definition showSuccess :: "string \<Rightarrow> state \<Rightarrow> state" where
  "showSuccess msg s = showNotification msg ''success'' s"

definition showError_v1 :: "string \<Rightarrow> state \<Rightarrow> state" where
  "showError_v1 msg s = s\<lparr>alerts := alerts s @ [''Error: '' @ msg]\<rparr>"

definition showSuccess_v1 :: "string \<Rightarrow> state \<Rightarrow> state" where
  "showSuccess_v1 msg s = s\<lparr>alerts := alerts s @ [''Success: '' @ msg]\<rparr>"

definition showLoading :: "state \<Rightarrow> state" where
  "showLoading s = s\<lparr>loadingSpinner := map_option (\<lambda>h. False) (loadingSpinner s)\<rparr>"

definition hideLoading :: "state \<Rightarrow> state" where
  "hideLoading s = s\<lparr>loadingSpinner := map_option (\<lambda>h. True) (loadingSpinner s)\<rparr>"

definition showProgressSection :: "state \<Rightarrow> state" where
  "showProgressSection s = s\<lparr>progressSection := map_option (\<lambda>h. False) (progressSection s)\<rparr>"

definition hideProgressSection :: "state \<Rightarrow> state" where
  "hideProgressSection s = s\<lparr>progressSection := map_option (\<lambda>h. True) (progressSection s)\<rparr>"

text \<open>\<open>loadDownloads\<close> sends a request for the list; the reply is rendered by \<open>displayDownloads\<close>.\<close>

definition loadDownloads :: "state \<Rightarrow> state" where
  "loadDownloads s = s\<lparr>list_requests := Suc (list_requests s)\<rparr>"

text \<open>
  \<open>showAlreadyDownloaded(filename)\<close>: the template calls \<open>filename.replace\<close>, a TypeError
  when the reply carried no \<open>existing_file\<close> (\<open>None\<close>); the element stays for 8000 ms.
\<close>

definition showAlreadyDownloaded :: "string option \<Rightarrow> state \<Rightarrow> state option" where
  "showAlreadyDownloaded f s =
     (case f of
        None \<Rightarrow> None
      | Some file \<Rightarrow>
          Some (setTimeout (Remove_notification (next_handle s)) 8000
            (s\<lparr>notifications := notifications s @ [\<lparr>nid = next_handle s, notice = Already_downloaded file\<rparr>]\<rparr>)))"

subsection \<open>updateProgress\<close>

definition status_text :: "string option \<Rightarrow> string" where
  "status_text st =
     (if st = Some ''downloading'' then ''Downloading...''
      else if st = Some ''completed'' then ''Completed!''
      else if st = Some ''error'' then ''Error occurred''
      else ''Processing...'')"

definition width_of :: "rat option \<Rightarrow> width" where
  "width_of x = (case x of None \<Rightarrow> Percent_undefined | Some q \<Rightarrow> Percent q)"

text \<open>
  The text of \<open>Math.round(x)\<close> and a percent sign; \<open>Math.round(undefined)\<close> is NaN.
  An integer below \<open>10^21\<close> prints as its decimal numeral, and a percentage is far
  below that.
\<close>

definition rounded_percent :: "rat option \<Rightarrow> string" where
  "rounded_percent x = (case x of None \<Rightarrow> ''NaN%'' | Some q \<Rightarrow> int_text (Math_round q) @ ''%'')"

definition updateProgress :: "progress_response \<Rightarrow> state \<Rightarrow> state" where
  "updateProgress p s =
     s\<lparr>progressFill := map_option (\<lambda>w. width_of (progress p)) (progressFill s),
       progressText := map_option (\<lambda>t. rounded_percent (progress p)) (progressText s),
       progressStatus := map_option (\<lambda>t. status_text (status p)) (progressStatus s)\<rparr>"

text \<open>
  The first listing dereferences the three elements in turn; a missing one raises a
  TypeError after the earlier assignments were made (\<open>Inl\<close> with the state so far).
\<close>

definition updateProgress_v1 :: "progress_response \<Rightarrow> state \<Rightarrow> state + state" where
  "updateProgress_v1 p s =
     (case progressFill s of
        None \<Rightarrow> Inl s
      | Some w \<Rightarrow>
          let s1 = s\<lparr>progressFill := Some (width_of (progress p))\<rparr>
          in (case progressText s1 of
                None \<Rightarrow> Inl s1
              | Some t \<Rightarrow>
                  let s2 = s1\<lparr>progressText := Some (rounded_percent (progress p))\<rparr>
                  in (case progressStatus s2 of
                        None \<Rightarrow> Inl s2
                      | Some u \<Rightarrow> Inr (s2\<lparr>progressStatus := Some (status_text (status p))\<rparr>))))"

subsection \<open>monitorProgress\<close>

text \<open>
  \<open>monitorProgress\<close> shows the progress section and starts an interval of 1000 ms; the
  handle goes into \<open>progressInterval\<close>, whatever was stored there before.
\<close>

definition monitorProgress :: "state \<Rightarrow> state" where
  "monitorProgress s =
     (let s1 = showProgressSection s
      in s1\<lparr>progressInterval := Some (next_handle s1),
            intervals := intervals s1 @ [next_handle s1],
            next_handle := Suc (next_handle s1)\<rparr>)"

text \<open>
  In the first listing \<open>showProgressSection\<close> has no null check: without the section
  the method ends in a TypeError before the interval is started.
\<close>

definition monitorProgress_v1 :: "state \<Rightarrow> state" where
  "monitorProgress_v1 s = (case progressSection s of None \<Rightarrow> s | Some h \<Rightarrow> monitorProgress s)"

text \<open>Each run of the callback starts with a request for the progress of the stored job.\<close>

definition poll_request :: "state \<Rightarrow> state" where
  "poll_request s = s\<lparr>polls_in_flight := polls_in_flight s @ [currentDownloadId s]\<rparr>"

definition download_label :: string where
  \<open>download_label = ''<i class="fas fa-download"></i> Download''\<close>

definition downloading_label :: string where
  \<open>downloading_label = ''<i class="fas fa-spinner fa-spin"></i> Downloading...''\<close>

text \<open>
  The end of the terminal branch, the same text in all four places of the two listings
  but for the delay: the button is looked up again and enabled (a TypeError without the
  button, caught and logged by the callback), then the timeout is set.
\<close>

definition enable_and_schedule :: "nat \<Rightarrow> state \<Rightarrow> state" where
  "enable_and_schedule ms s =
     (case downloadBtn s of
        None \<Rightarrow> console_error ''Error monitoring progress:'' s
      | Some b \<Rightarrow>
          setTimeout Hide_progress_and_clear_id ms
            (s\<lparr>downloadBtn := Some \<lparr>disabled = False, innerHTML = download_label\<rparr>\<rparr>))"

text \<open>The rest of the callback, run when the request has settled (second listing).\<close>

definition monitorProgress_response :: "poll_outcome \<Rightarrow> state \<Rightarrow> state" where
  "monitorProgress_response r s =
     (case r of
        Poll_failed \<Rightarrow> console_error ''Error monitoring progress:'' s
      | Poll_json p \<Rightarrow>
          if finished p \<noteq> None then
            let s1 = updateProgress
                       \<lparr>finished = None,
                        progress = Some (case progress p of None \<Rightarrow> 0 | Some x \<Rightarrow> x),
                        status = Some (if finished p = Some True
                                       then (if truthy (error p) then ''error'' else ''completed'')
                                       else ''downloading''),
                        error = error p\<rparr> s
            in if finished p = Some True then
                 let s2 = clearInterval (progressInterval s1) s1;
                     s3 = (if truthy (error p)
                           then showError (''Download failed: '' @ str (error p)) s2
                           else loadDownloads (showSuccess ''Download completed!'' s2))
                 in enable_and_schedule 3000 s3
               else s1
          else
            let s1 = updateProgress p s
            in if status p = Some ''completed'' \<or> status p = Some ''error'' then
                 let s2 = clearInterval (progressInterval s1) s1;
                     s3 = (if status p = Some ''completed''
                           then loadDownloads (showSuccess ''Download completed!'' s2)
                           else showError (''Download failed: '' @ str (error p)) s2)
                 in enable_and_schedule 3000 s3
               else s1)"

text \<open>The first listing reads only \<open>status\<close> and waits 2000 ms.\<close>

definition monitorProgress_response_v1 :: "poll_outcome \<Rightarrow> state \<Rightarrow> state" where
  "monitorProgress_response_v1 r s =
     (case r of
        Poll_failed \<Rightarrow> console_error ''Error monitoring progress:'' s
      | Poll_json p \<Rightarrow>
          (case updateProgress_v1 p s of
             Inl s1 \<Rightarrow> console_error ''Error monitoring progress:'' s1
           | Inr s1 \<Rightarrow>
               if status p = Some ''completed'' \<or> status p = Some ''error'' then
                 let s2 = clearInterval (progressInterval s1) s1;
                     s3 = (if status p = Some ''completed''
                           then loadDownloads (showSuccess_v1 ''Download completed!'' s2)
                           else showError_v1 (''Download failed: '' @ str (error p)) s2)
                 in enable_and_schedule 2000 s3
               else s1))"

text \<open>
  The callbacks of the timeouts.  In the first listing \<open>hideProgressSection\<close> raises a
  TypeError when the section is missing, and the identifier is then not cleared.
\<close>

definition run_timeout :: "timeout_action \<Rightarrow> state \<Rightarrow> state" where
  "run_timeout a s =
     (case a of
        Hide_progress_and_clear_id \<Rightarrow> (hideProgressSection s)\<lparr>currentDownloadId := None\<rparr>
      | Remove_notification n \<Rightarrow> s\<lparr>notifications := filter (\<lambda>x. nid x \<noteq> n) (notifications s)\<rparr>)"

definition run_timeout_v1 :: "timeout_action \<Rightarrow> state \<Rightarrow> state" where
  "run_timeout_v1 a s =
     (case a of
        Hide_progress_and_clear_id \<Rightarrow>
          (case progressSection s of
             None \<Rightarrow> s
           | Some h \<Rightarrow> (hideProgressSection s)\<lparr>currentDownloadId := None\<rparr>)
      | Remove_notification n \<Rightarrow> s)"

subsection \<open>startDownload\<close>

definition authentication_error :: "string \<Rightarrow> bool" where
  "authentication_error m =
     (js_includes m ''authentication'' \<or> js_includes m ''Sign in'' \<or> js_includes m ''bot'')"

definition network_error :: string where
  "network_error = ''Network error. Please check your connection and try again.''"

text \<open>
  The \<open>catch\<close> block of \<open>startDownload\<close>; it looks the button up again, and without
  the button its own TypeError ends the method after the notification.
\<close>

definition startDownload_catch :: "state \<Rightarrow> state" where
  "startDownload_catch s =
     (let s1 = showError network_error (hideLoading s)
      in s1\<lparr>downloadBtn := map_option (\<lambda>b. \<lparr>disabled = False, innerHTML = download_label\<rparr>) (downloadBtn s1)\<rparr>)"

text \<open>Up to the request: the argument is the value of the input field.\<close>

definition startDownload :: "string \<Rightarrow> state \<Rightarrow> state" where
  "startDownload v s =
     (let url = trim v
      in if url = [] \<or> \<not> isValidYouTubeUrl url then showError ''Please enter a valid YouTube URL'' s
         else
           let s1 = showLoading s
           in (case downloadBtn s1 of
                 None \<Rightarrow> startDownload_catch s1
               | Some b \<Rightarrow>
                   s1\<lparr>downloadBtn := Some \<lparr>disabled = True, innerHTML = downloading_label\<rparr>,
                      downloads_in_flight := Suc (downloads_in_flight s1)\<rparr>))"

text \<open>From the reply on.  The method holds the button it found before the request.\<close>

definition startDownload_response :: "download_outcome \<Rightarrow> state \<Rightarrow> state" where
  "startDownload_response r s =
     (case r of
        Download_failed \<Rightarrow> startDownload_catch s
      | Download_json d \<Rightarrow>
          let s1 = hideLoading s
          in if success d then
               showSuccess ''Download started successfully!''
                 (monitorProgress (s1\<lparr>currentDownloadId := download_id d\<rparr>))
             else
               (case data_error d of
                  None \<Rightarrow> startDownload_catch s1
                | Some m \<Rightarrow>
                    let enable = (\<lambda>t. t\<lparr>downloadBtn :=
                                   map_option (\<lambda>b. \<lparr>disabled = False, innerHTML = download_label\<rparr>) (downloadBtn t)\<rparr>)
                    in if authentication_error m then
                         enable (showError
                           (if cookie_status d = Some ''available''
                            then ''YouTube is requiring authentication for this video. The app is using cookies but this video may be restricted.''
                            else ''YouTube is requiring authentication for this video. Some videos require cookies to download.'') s1)
                       else if js_includes m ''already been downloaded'' then
                         (case showAlreadyDownloaded (existing_file d) s1 of
                            None \<Rightarrow> startDownload_catch s1
                          | Some s2 \<Rightarrow> enable (showError m s2))
                       else enable (showError m s1)))"

subsection \<open>The audio player and deleteFile\<close>

text \<open>
  Reading \<open>audioPlayer.src\<close> yields the attribute resolved against the address of the
  page, the empty string while no attribute is set.  The resolution is the browser's
  and a parameter here.
\<close>

definition src_of :: "(string \<Rightarrow> string) \<Rightarrow> audio \<Rightarrow> string" where
  "src_of resolve a = (case src a of None \<Rightarrow> [] | Some u \<Rightarrow> resolve u)"

text \<open>
  \<open>playAudio\<close>; \<open>played\<close> tells whether the promise of \<open>play()\<close> was fulfilled, the
  rejection being reported after the success message.
\<close>

definition playAudio :: "string \<Rightarrow> string \<Rightarrow> bool \<Rightarrow> state \<Rightarrow> state" where
  "playAudio file title played s =
     (case (audioPlayer s, nowPlayingTitle s, audioPlayerSection s) of
        (Some a, Some t, Some h) \<Rightarrow>
          let s1 = s\<lparr>audioPlayer := Some (a\<lparr>src := Some (''/play-audio/'' @ file), paused := \<not> played\<rparr>),
                     nowPlayingTitle := Some title,
                     audioPlayerSection := Some False\<rparr>;
              s2 = showSuccess (''Now playing: '' @ title) s1
          in if played then s2
             else showError ''Error playing audio. Please try downloading the file instead.''
                    (console_error ''Error playing audio:'' s2)
      | _ \<Rightarrow> s)"

definition stopAudio :: "state \<Rightarrow> state" where
  "stopAudio s =
     s\<lparr>audioPlayer := map_option (\<lambda>a. a\<lparr>paused := True, currentTime := 0\<rparr>) (audioPlayer s),
       audioPlayerSection := map_option (\<lambda>h. True) (audioPlayerSection s)\<rparr>"

text \<open>
  \<open>deleteFile\<close>, from the answer to the confirmation dialogue to the end; the reply of
  the server is the second argument.
\<close>

definition deleteFile :: "(string \<Rightarrow> string) \<Rightarrow> bool \<Rightarrow> delete_outcome \<Rightarrow> string \<Rightarrow> state \<Rightarrow> state" where
  "deleteFile resolve confirmed r file s =
     (if \<not> confirmed then s
      else
        (case r of
           Delete_failed \<Rightarrow> showError ''Network error deleting file'' s
         | Delete_json ok e \<Rightarrow>
             if ok then
               let s1 = loadDownloads (showSuccess ''File deleted successfully!'' s)
               in (case audioPlayer s1 of
                     None \<Rightarrow> s1
                   | Some a \<Rightarrow> if js_includes (src_of resolve a) file then stopAudio s1 else s1)
             else showError (or_else e ''Failed to delete file'') s))"

text \<open>
  The first listing has no \<open>try\<close>: a rejected request or a missing element ends the
  method where it stands.  Its \<open>stopAudio\<close> leaves the section alone, \<open>deleteFile\<close>
  hides it.
\<close>

definition stopAudio_v1 :: "state \<Rightarrow> state" where
  "stopAudio_v1 s =
     s\<lparr>audioPlayer := map_option (\<lambda>a. a\<lparr>paused := True, currentTime := 0\<rparr>) (audioPlayer s)\<rparr>"

definition deleteFile_v1 :: "(string \<Rightarrow> string) \<Rightarrow> bool \<Rightarrow> delete_outcome \<Rightarrow> string \<Rightarrow> state \<Rightarrow> state" where
  "deleteFile_v1 resolve confirmed r file s =
     (if \<not> confirmed then s
      else
        (case r of
           Delete_failed \<Rightarrow> s
         | Delete_json ok e \<Rightarrow>
             if ok then
               let s1 = loadDownloads (showSuccess_v1 ''Deleted successfully!'' s)
               in (case audioPlayer s1 of
                     None \<Rightarrow> s1
                   | Some a \<Rightarrow>
                       if js_includes (src_of resolve a) file
                       then (let s2 = stopAudio_v1 s1
                             in s2\<lparr>audioPlayerSection := map_option (\<lambda>h. True) (audioPlayerSection s2)\<rparr>)
                       else s1)
             else showError_v1 (str e) s))"

subsection \<open>The events of a session\<close>

text \<open>
  The page after the constructor has run: every element is there, nothing is shown,
  and \<open>init\<close> has asked for the list once.  The look at the clipboard, the notice
  about cookies and the refresh of the list every 30 seconds are left out; they touch
  neither the two fields of the controller nor the intervals of \<open>monitorProgress\<close>.
\<close>

definition new_YouTubeDownloader :: state where
  "new_YouTubeDownloader =
     \<lparr>currentDownloadId = None, progressInterval = None,
      intervals = [], timeouts = [], next_handle = 1,
      polls_in_flight = [], downloads_in_flight = 0, list_requests = 1,
      downloadBtn = Some \<lparr>disabled = False, innerHTML = download_label\<rparr>,
      loadingSpinner = Some True,
      progressSection = Some True, progressFill = Some Width_initial,
      progressText = Some [], progressStatus = Some [],
      audioPlayer = Some \<lparr>src = None, paused = True, currentTime = 0\<rparr>,
      audioPlayerSection = Some True, nowPlayingTitle = Some [],
      notifications = [], alerts = [], console = []\<rparr>"

text \<open>
  What can happen next (second listing): the user asks for a download (the Enter key
  in the input field calls \<open>startDownload\<close> whether or not the button is disabled), a
  request settles, an interval or a timeout fires.  \<open>step\<close> is \<open>None\<close> for an event
  that cannot happen in the state: a handle that is not active, a reply nobody awaits.
\<close>

datatype event =
    Start_download string
  | Download_reply download_outcome
  | Interval_fires nat
  | Poll_reply nat poll_outcome
  | Timeout_fires nat

definition step :: "event \<Rightarrow> state \<Rightarrow> state option" where
  "step e s =
     (case e of
        Start_download v \<Rightarrow> Some (startDownload v s)
      | Download_reply r \<Rightarrow>
          if downloads_in_flight s = 0 then None
          else Some (startDownload_response r (s\<lparr>downloads_in_flight := downloads_in_flight s - 1\<rparr>))
      | Interval_fires h \<Rightarrow>
          if h \<in> set (intervals s) then Some (poll_request s) else None
      | Poll_reply i r \<Rightarrow>
          if i < length (polls_in_flight s)
          then Some (monitorProgress_response r
                 (s\<lparr>polls_in_flight := take i (polls_in_flight s) @ drop (Suc i) (polls_in_flight s)\<rparr>))
          else None
      | Timeout_fires h \<Rightarrow>
          (case find (\<lambda>t. handle t = h) (timeouts s) of
             None \<Rightarrow> None
           | Some t \<Rightarrow>
               Some (run_timeout (action t) (s\<lparr>timeouts := filter (\<lambda>t. handle t \<noteq> h) (timeouts s)\<rparr>))))"

fun run :: "event list \<Rightarrow> state \<Rightarrow> state option" where
  "run [] s = Some s"
| "run (e # es) s = (case step e s of None \<Rightarrow> None | Some t \<Rightarrow> run es t)"

subsection \<open>Notions for stating the properties\<close>

text \<open>
  The three states that section 4.4 of the specification names, as the callback of the
  second listing tells them apart: a response with \<open>finished\<close> is read by its
  \<open>finished\<close> and \<open>error\<close> fields, any other one by its \<open>status\<close>.  The callback of
  the first listing looks at \<open>status\<close> alone.
\<close>

datatype phase = In_progress | Completed | Failed

definition phase_of :: "progress_response \<Rightarrow> phase" where
  "phase_of p =
     (if finished p \<noteq> None
      then (if finished p = Some True then (if truthy (error p) then Failed else Completed)
            else In_progress)
      else if status p = Some ''completed'' then Completed
      else if status p = Some ''error'' then Failed
      else In_progress)"

definition phase_of_v1 :: "progress_response \<Rightarrow> phase" where
  "phase_of_v1 p =
     (if status p = Some ''completed'' then Completed
      else if status p = Some ''error'' then Failed
      else In_progress)"

text \<open>What a poll that may have failed reports: nothing, or a phase.\<close>

definition reported :: "poll_outcome \<Rightarrow> phase option" where
  "reported r = (case r of Poll_failed \<Rightarrow> None | Poll_json p \<Rightarrow> Some (phase_of p))"

definition reported_v1 :: "poll_outcome \<Rightarrow> phase option" where
  "reported_v1 r = (case r of Poll_failed \<Rightarrow> None | Poll_json p \<Rightarrow> Some (phase_of_v1 p))"

text \<open>The message at the end of a job: a notification, an alert in the first listing.\<close>

definition terminal_notice :: "progress_response \<Rightarrow> notice" where
  "terminal_notice p =
     (if phase_of p = Completed then Notification ''Download completed!'' ''success''
      else Notification (''Download failed: '' @ str (error p)) ''error'')"

definition terminal_alert :: "progress_response \<Rightarrow> string" where
  "terminal_alert p =
     (if phase_of_v1 p = Completed then ''Success: Download completed!''
      else ''Error: Download failed: '' @ str (error p))"

text \<open>The two shapes of a progress response (section 6 of the specification).\<close>

definition finished_shape :: "bool \<Rightarrow> rat \<Rightarrow> string option \<Rightarrow> progress_response" where
  "finished_shape b x e = \<lparr>finished = Some b, progress = Some x, status = None, error = e\<rparr>"

definition status_shape :: "string \<Rightarrow> rat \<Rightarrow> string option \<Rightarrow> progress_response" where
  "status_shape st x e = \<lparr>finished = None, progress = Some x, status = Some st, error = e\<rparr>"

text \<open>The interval whose handle the controller holds is running.\<close>

definition polling :: "state \<Rightarrow> bool" where
  "polling s = (case progressInterval s of None \<Rightarrow> False | Some h \<Rightarrow> h \<in> set (intervals s))"

text \<open>The handle the controller holds was issued before: it is below the next one.\<close>

definition handle_issued :: "state \<Rightarrow> bool" where
  "handle_issued s = (case progressInterval s of None \<Rightarrow> True | Some h \<Rightarrow> h < next_handle s)"

text \<open>What \<open>clearInterval\<close> leaves of the intervals and of the timeouts.\<close>

definition intervals_without :: "nat option \<Rightarrow> nat list \<Rightarrow> nat list" where
  "intervals_without h xs = (case h of None \<Rightarrow> xs | Some k \<Rightarrow> removeAll k xs)"

definition timeouts_without :: "nat option \<Rightarrow> timer list \<Rightarrow> timer list" where
  "timeouts_without h ts = (case h of None \<Rightarrow> ts | Some k \<Rightarrow> filter (\<lambda>t. handle t \<noteq> k) ts)"

text \<open>The timeouts that will hide the progress section, and the notifications that carry a given notice.\<close>

definition grace_timers :: "state \<Rightarrow> timer list" where
  "grace_timers s = filter (\<lambda>t. action t = Hide_progress_and_clear_id) (timeouts s)"

definition shown :: "notice \<Rightarrow> state \<Rightarrow> nat" where
  "shown n s = length (filter (\<lambda>x. notice x = n) (notifications s))"

text \<open>Pieces of the markup of an entry: the heading and the three inline handlers.\<close>

definition heading :: "string \<Rightarrow> string" where
  "heading n = ''<h4>'' @ n @ ''</h4>''"

definition onclick_play :: "string \<Rightarrow> string \<Rightarrow> string" where
  \<open>onclick_play f n =
     ''onclick="playFile('' @ [CHR 0x27] @ f @ [CHR 0x27] @ '', '' @ [CHR 0x27] @ n @ [CHR 0x27] @ '')"''\<close>

definition onclick_download :: "string \<Rightarrow> string" where
  \<open>onclick_download f = ''onclick="downloadFile('' @ [CHR 0x27] @ f @ [CHR 0x27] @ '')"''\<close>

definition onclick_delete :: "string \<Rightarrow> string" where
  \<open>onclick_delete f = ''onclick="deleteFile('' @ [CHR 0x27] @ f @ [CHR 0x27] @ '')"''\<close>

text \<open>
  The markup \<open>html\<close> holds the heading with the name \<open>n\<close> as given, the three handlers
  with the file name \<open>f\<close> as given, and so \<open>f\<close> itself.
\<close>

definition raw_filename_markup :: "string \<Rightarrow> string \<Rightarrow> string \<Rightarrow> bool" where
  "raw_filename_markup html f n \<longleftrightarrow>
     js_includes html (heading n) \<and>
     js_includes html (onclick_play f n) \<and>
     js_includes html (onclick_download f) \<and>
     js_includes html (onclick_delete f) \<and>
     js_includes html f"

text \<open>A number of tenths printed with one digit after the point, as \<open>toFixed(1)\<close> prints it.\<close>

definition one_decimal :: "nat \<Rightarrow> string" where
  "one_decimal n = dec (n div 10) @ ''.'' @ dec (n mod 10)"

text \<open>
  What stands for a character in escaped text: in the second listing the ampersand,
  the two angle brackets and the no-break space become entities, in the first listing
  the ampersand, the angle brackets and the two quotes; every other character stands
  for itself.
\<close>

definition html_entity :: "char \<Rightarrow> string" where
  "html_entity c =
     (if c = CHR ''&'' then ''&amp;''
      else if c = CHR ''<'' then ''&lt;''
      else if c = CHR ''>'' then ''&gt;''
      else if c = CHR 0xA0 then ''&nbsp;''
      else [c])"

definition html_entity_v1 :: "char \<Rightarrow> string" where
  \<open>html_entity_v1 c =
     (if c = CHR ''&'' then ''&amp;''
      else if c = CHR ''<'' then ''&lt;''
      else if c = CHR ''>'' then ''&gt;''
      else if c = CHR ''"'' then ''&quot;''
      else if c = CHR 0x27 then ''&#039;''
      else [c])\<close>

text \<open>Every pending timeout was issued before: its handle is below the next one.\<close>

definition timers_issued :: "state \<Rightarrow> bool" where
  "timers_issued s = list_all (\<lambda>t. handle t < next_handle s) (timeouts s)"

subsection \<open>Sample inputs\<close>

definition ok_reply :: "string \<Rightarrow> download_outcome" where
  "ok_reply i = Download_json \<lparr>success = True, download_id = Some i, data_error = None,
     cookie_status = None, existing_file = None\<rparr>"

definition completed_reply :: poll_outcome where
  "completed_reply = Poll_json (status_shape ''completed'' 100 None)"

text \<open>
  The session after one download was started: job1 is polled by the interval 1.  With
  the progress section on the page \<open>monitorProgress\<close> is the same in both listings.
\<close>

definition polling_state :: state where
  "polling_state = monitorProgress (new_YouTubeDownloader\<lparr>currentDownloadId := Some ''job1''\<rparr>)"

definition sample_entry :: library_entry where
  \<open>sample_entry =
     \<lparr>filename = ''x'' @ [CHR 0x27] @ '');alert(1);//.mp3'', name = ''<b>Song</b>'', size_bytes = 2048,
      size_formatted = Some ''2.00 KB'', modified = 0, modified_formatted = Some ''1/1/1970'',
      duration_formatted = None\<rparr>\<close>

text \<open>
  A resolution that puts the origin before the path.  It is right for a path with
  nothing to percent-encode, such as the sample below; the browser would encode a
  blank.
\<close>

definition localhost :: "string \<Rightarrow> string" where
  "localhost u = ''http://localhost:5000'' @ u"

text \<open>The page while \<open>ba.mp3\<close> is playing.\<close>

definition playing_state :: state where
  "playing_state = playAudio ''ba.mp3'' ''ba'' True new_YouTubeDownloader"

section \<open>Verification\<close>

subsection \<open>formatViews\<close>

lemma floor_rat_numeral_div: "\<lfloor>(numeral a :: rat) / numeral b\<rfloor> = numeral a div numeral b"
  using floor_divide_of_int_eq[of "numeral a" "numeral b", where ?'a = rat] by simp

lemmas views_defs = videoViews_text_def videoViews_text_v1_def formatViews_def formatViews_v1_def
  suffixed_def toFixed1_def binary64_ge1_def round_half_even_def textContent_of_def int_text_def
  floor_rat_numeral_div Let_def

lemma views_999: "videoViews_text 999 = Some ''999''"
  by (simp add: views_defs)

lemma views_1500: "videoViews_text 1500 = Some ''1.5K''"
  by (simp add: views_defs)

lemma views_2300000: "videoViews_text 2300000 = Some ''2.3M''"
  by (simp add: views_defs)

lemma views_4000000000: "videoViews_text 4000000000 = Some ''4.0B''"
  by (simp add: views_defs)

lemma views_v1_999: "videoViews_text_v1 999 = Some ''999''"
  by (simp add: views_defs)

lemma views_v1_1500: "videoViews_text_v1 1500 = Some ''1.5K''"
  by (simp add: views_defs)

lemma views_v1_2300000: "videoViews_text_v1 2300000 = Some ''2.3M''"
  by (simp add: views_defs)

lemma views_v1_4000000000: "videoViews_text_v1 4000000000 = Some ''4000.0M''"
  by (simp add: views_defs)

text \<open>
  The division rounds to a double before \<open>toFixed\<close> rounds to one decimal: 1150 / 1000 is
  a double just below 1.15 and prints as 1.1, while 1250 / 1000 is exactly 1.25 and
  prints as 1.3.
\<close>

lemma views_1150: "videoViews_text 1150 = Some ''1.1K''"
  by (simp add: views_defs)

lemma views_1250: "videoViews_text 1250 = Some ''1.3K''"
  by (simp add: views_defs)

text \<open>Below 1000 both formatters return the number, which is shown as its numeral.\<close>

lemma views_below_1000:
  assumes "n < 1000"
  shows "videoViews_text (of_nat n) = Some (dec n) \<and> videoViews_text_v1 (of_nat n) = Some (dec n)"
proof -
  have lt: "(of_nat n :: rat) < 1000"
    using assms by (metis of_nat_less_iff of_nat_numeral)
  have ge: "(0 :: rat) \<le> of_nat n"
    by simp
  have small: "\<not> (10 ^ 9 \<le> (of_nat n :: rat))" "\<not> (10 ^ 6 \<le> (of_nat n :: rat))"
    "\<not> (10 ^ 3 \<le> (of_nat n :: rat))"
    using lt by simp_all
  have whole: "\<lfloor>of_nat n :: rat\<rfloor> = int n"
    by simp
  have bound: "\<bar>of_nat n :: rat\<bar> < 10 ^ 21"
    using lt ge by simp
  have fv: "formatViews (of_nat n) = Some (Views_number (of_nat n))"
    "formatViews_v1 (of_nat n) = Some (Views_number (of_nat n))"
    unfolding formatViews_def formatViews_v1_def using small by simp_all
  have tc: "textContent_of (Views_number (of_nat n)) = Some (dec n)"
    unfolding textContent_of_def int_text_def using bound by (simp add: whole del: dec.simps)
  show ?thesis
    unfolding videoViews_text_def videoViews_text_v1_def fv by (simp add: tc del: dec.simps)
qed

text \<open>
  Claim C8, against the first listing: its formatter has no branch for billions, so
  4000000000 does not come out as 4.0B there.
\<close>

theorem formatViews_v1_has_no_billions: "videoViews_text_v1 4000000000 \<noteq> Some ''4.0B''"
  by (simp add: views_defs)

text \<open>
  The double nearest to a quotient of at least 1 is off by at most the quotient times
  \<open>2^-53\<close>, and \<open>toFixed(1)\<close> prints the nearest tenth of that double.
\<close>

lemma ilog2_bounds: "1 \<le> n \<Longrightarrow> 2 ^ ilog2 n \<le> n \<and> n < 2 ^ Suc (ilog2 n)"
proof (induction n rule: ilog2.induct)
  case (1 n)
  show ?case
  proof (cases "n < 2")
    case True
    with "1.prems" have "n = 1" by simp
    then show ?thesis by simp
  next
    case False
    then have half: "1 \<le> n div 2" by simp
    have ih: "2 ^ ilog2 (n div 2) \<le> n div 2 \<and> n div 2 < 2 ^ Suc (ilog2 (n div 2))"
      using "1.IH"[OF False half] .
    have eq: "ilog2 n = Suc (ilog2 (n div 2))"
      using False by (subst ilog2.simps) simp
    have lo: "2 * 2 ^ ilog2 (n div 2) \<le> n"
      using ih by linarith
    have hi: "n < 2 * 2 ^ Suc (ilog2 (n div 2))"
      using ih by linarith
    show ?thesis
      unfolding eq using lo hi by simp
  qed
qed

lemma round_half_even_near: "\<bar>of_int (round_half_even y) - y\<bar> \<le> 1 / 2"
proof -
  have "of_int \<lfloor>y\<rfloor> \<le> y" "y < of_int \<lfloor>y\<rfloor> + 1"
    by linarith+
  then show ?thesis
    unfolding round_half_even_def Let_def by (auto simp: abs_le_iff)
qed

lemma binary64_near:
  assumes "1 \<le> x"
  shows "\<bar>binary64_ge1 x - x\<bar> \<le> x / 2 ^ 53"
proof -
  define e where "e = ilog2 (nat \<lfloor>x\<rfloor>)"
  define u :: rat where "u = 2 ^ e / 2 ^ 52"
  define y where "y = x / u"
  have fl: "1 \<le> nat \<lfloor>x\<rfloor>"
    using assms by linarith
  have "2 ^ e \<le> nat \<lfloor>x\<rfloor>"
    unfolding e_def using ilog2_bounds[OF fl] by simp
  then have "(2::rat) ^ e \<le> of_nat (nat \<lfloor>x\<rfloor>)"
    by (metis of_nat_le_iff of_nat_numeral of_nat_power)
  also have "\<dots> \<le> x"
    using assms by simp
  finally have pow: "(2::rat) ^ e \<le> x" .
  have upos: "0 < u"
    unfolding u_def by simp
  have b: "binary64_ge1 x = of_int (round_half_even y) * u"
    unfolding binary64_ge1_def Let_def e_def[symmetric] y_def u_def by (simp add: field_simps)
  have "binary64_ge1 x - x = (of_int (round_half_even y) - y) * u"
    unfolding b y_def using upos by (simp add: field_simps)
  then have "\<bar>binary64_ge1 x - x\<bar> = \<bar>of_int (round_half_even y) - y\<bar> * u"
    using upos by (simp add: abs_mult)
  also have "\<dots> \<le> 1 / 2 * u"
    using round_half_even_near[of y] upos by (intro mult_right_mono) simp_all
  also have "\<dots> = 2 ^ e / 2 ^ 53"
    unfolding u_def by simp
  also have "\<dots> \<le> x / 2 ^ 53"
    using pow by (simp add: divide_right_mono)
  finally show ?thesis .
qed

lemma toFixed1_near:
  assumes "0 \<le> b" "b < 10 ^ 21"
  shows "\<exists>n. toFixed1 b = Some (one_decimal n) \<and> \<bar>of_nat n / 10 - b\<bar> \<le> 1 / 20"
proof -
  let ?k = "\<lfloor>10 * b + 1 / 2\<rfloor>"
  have k0: "0 \<le> ?k"
    using assms(1) by simp
  have "of_int ?k \<le> 10 * b + 1 / 2" "10 * b + 1 / 2 < of_int ?k + 1"
    by linarith+
  then have near: "\<bar>of_int ?k / 10 - b\<bar> \<le> 1 / 20"
    by linarith
  have "(of_nat (nat ?k) :: rat) = of_int ?k"
    using k0 by simp
  then have "\<bar>of_nat (nat ?k) / 10 - b\<bar> \<le> 1 / 20"
    using near by simp
  moreover have "toFixed1 b = Some (one_decimal (nat ?k))"
    using assms unfolding toFixed1_def one_decimal_def Let_def by (simp del: dec.simps)
  ultimately show ?thesis by blast
qed

lemma suffixed_rule:
  assumes "1 \<le> q" "q < 10 ^ 20"
  shows "\<exists>n. suffixed q u = Some (Views_text (one_decimal n @ u)) \<and>
             \<bar>of_nat n / 10 - q\<bar> \<le> 1 / 20 + q / 2 ^ 53"
proof -
  have near: "\<bar>binary64_ge1 q - q\<bar> \<le> q / 2 ^ 53"
    using binary64_near[OF assms(1)] .
  have le: "q / 2 ^ 53 \<le> q"
    using assms(1) by (simp add: field_simps)
  have q20: "q < 100000000000000000000"
    using assms(2) by simp
  have "0 \<le> binary64_ge1 q" "binary64_ge1 q < 1000000000000000000000"
    using near le assms(1) q20 by linarith+
  then have b: "0 \<le> binary64_ge1 q" "binary64_ge1 q < 10 ^ 21"
    by simp_all
  obtain n where n: "toFixed1 (binary64_ge1 q) = Some (one_decimal n)"
    "\<bar>of_nat n / 10 - binary64_ge1 q\<bar> \<le> 1 / 20"
    using toFixed1_near[OF b] by blast
  have "\<bar>of_nat n / 10 - q\<bar> \<le> 1 / 20 + q / 2 ^ 53"
    using n(2) near by linarith
  then show ?thesis
    using n(1) by (auto simp: suffixed_def)
qed


lemma plain_below_1000: "k < 1000 \<Longrightarrow> textContent_of (Views_number (of_nat k)) = Some (dec k)"
proof -
  assume k: "k < 1000"
  have lt: "(of_nat k :: rat) < 1000"
    using k by (metis of_nat_less_iff of_nat_numeral)
  have ge: "(0 :: rat) \<le> of_nat k"
    by simp
  have bound: "\<bar>of_nat k :: rat\<bar> < 10 ^ 21"
    using lt ge by simp
  have whole: "\<lfloor>of_nat k :: rat\<rfloor> = int k"
    by simp
  show ?thesis
    unfolding textContent_of_def int_text_def using bound by (simp add: whole del: dec.simps)
qed

lemma rule_number: "v < 10 ^ 3 \<Longrightarrow> formatViews v = Some (Views_number v) \<and> formatViews_v1 v = Some (Views_number v)"
  by (simp add: formatViews_def formatViews_v1_def)

lemma rule_K:
  assumes "10 ^ 3 \<le> v" "v < 10 ^ 6"
  shows "\<exists>n. formatViews v = Some (Views_text (one_decimal n @ ''K'')) \<and>
             formatViews_v1 v = Some (Views_text (one_decimal n @ ''K'')) \<and>
             \<bar>of_nat n / 10 - v / 10 ^ 3\<bar> \<le> 1 / 20 + v / 10 ^ 3 / 2 ^ 53"
proof -
  have q: "1 \<le> v / 10 ^ 3" "v / 10 ^ 3 < 10 ^ 20"
    using assms by (simp_all add: field_simps)
  have f: "formatViews v = suffixed (v / 10 ^ 3) ''K''" "formatViews_v1 v = suffixed (v / 10 ^ 3) ''K''"
    using assms by (simp_all add: formatViews_def formatViews_v1_def)
  show ?thesis
    unfolding f using suffixed_rule[OF q, of "''K''"] by blast
qed

lemma rule_M:
  assumes "10 ^ 6 \<le> v" "v < 10 ^ 9"
  shows "\<exists>n. formatViews v = Some (Views_text (one_decimal n @ ''M'')) \<and>
             formatViews_v1 v = Some (Views_text (one_decimal n @ ''M'')) \<and>
             \<bar>of_nat n / 10 - v / 10 ^ 6\<bar> \<le> 1 / 20 + v / 10 ^ 6 / 2 ^ 53"
proof -
  have q: "1 \<le> v / 10 ^ 6" "v / 10 ^ 6 < 10 ^ 20"
    using assms by (simp_all add: field_simps)
  have f: "formatViews v = suffixed (v / 10 ^ 6) ''M''" "formatViews_v1 v = suffixed (v / 10 ^ 6) ''M''"
    using assms by (simp_all add: formatViews_def formatViews_v1_def)
  show ?thesis
    unfolding f using suffixed_rule[OF q, of "''M''"] by blast
qed

lemma rule_B:
  assumes "10 ^ 9 \<le> v" "v < 10 ^ 29"
  shows "\<exists>n. formatViews v = Some (Views_text (one_decimal n @ ''B'')) \<and>
             \<bar>of_nat n / 10 - v / 10 ^ 9\<bar> \<le> 1 / 20 + v / 10 ^ 9 / 2 ^ 53"
proof -
  have q: "1 \<le> v / 10 ^ 9" "v / 10 ^ 9 < 10 ^ 20"
    using assms by (simp_all add: field_simps)
  have f: "formatViews v = suffixed (v / 10 ^ 9) ''B''"
    using assms by (simp_all add: formatViews_def)
  show ?thesis
    unfolding f using suffixed_rule[OF q, of "''B''"] by blast
qed

lemma rule_v1_M:
  assumes "10 ^ 9 \<le> v" "v < 10 ^ 26"
  shows "\<exists>n. formatViews_v1 v = Some (Views_text (one_decimal n @ ''M'')) \<and>
             \<bar>of_nat n / 10 - v / 10 ^ 6\<bar> \<le> 1 / 20 + v / 10 ^ 6 / 2 ^ 53"
proof -
  have q: "1 \<le> v / 10 ^ 6" "v / 10 ^ 6 < 10 ^ 20"
    using assms by (simp_all add: field_simps)
  have f: "formatViews_v1 v = suffixed (v / 10 ^ 6) ''M''"
    using assms by (simp_all add: formatViews_v1_def)
  show ?thesis
    unfolding f using suffixed_rule[OF q, of "''M''"] by blast
qed

lemmas format_defs = formatViews_def formatViews_v1_def
  suffixed_def toFixed1_def binary64_ge1_def round_half_even_def
  floor_rat_numeral_div Let_def

lemma format_999: "formatViews 999 = Some (Views_number 999) \<and> formatViews_v1 999 = Some (Views_number 999)"
  by (simp add: format_defs)

lemma format_1500: "formatViews 1500 = Some (Views_text ''1.5K'') \<and> formatViews_v1 1500 = Some (Views_text ''1.5K'')"
  by (simp add: format_defs)

lemma format_2300000:
  "formatViews 2300000 = Some (Views_text ''2.3M'') \<and> formatViews_v1 2300000 = Some (Views_text ''2.3M'')"
  by (simp add: format_defs)

lemma format_4000000000:
  "formatViews 4000000000 = Some (Views_text ''4.0B'') \<and> formatViews_v1 4000000000 = Some (Views_text ''4000.0M'')"
  by (simp add: format_defs)

lemma text_999: "textContent_of (Views_number 999) = Some ''999''"
  by (simp add: textContent_of_def int_text_def)

text \<open>
  Claim C8, amended: the formatter returns the number itself for a count below 1000,
  which the page shows as its plain numeral (999 as 999).  From 1000 on it returns a
  text: the count divided by 1000 with one decimal and the suffix K below \<open>10^6\<close>, the
  count divided by \<open>10^6\<close> with the suffix M below \<open>10^9\<close>, and in the second listing the
  count divided by \<open>10^9\<close> with the suffix B from \<open>10^9\<close> on (1500 gives 1.5K, 2300000
  gives 2.3M, 4000000000 gives 4.0B).  The first listing has no branch for billions and
  keeps the suffix M from \<open>10^6\<close> on (4000000000 gives 4000.0M).  The decimal is the
  tenth nearest to the double quotient: it is off the exact quotient by at most 0.05 and
  the rounding of the division.  (Stated for counts below \<open>10^29\<close>, in the first listing
  below \<open>10^26\<close>; beyond, \<open>toFixed\<close> prints an exponent.)
\<close>

theorem formatViews_rule:
  "(v < 10 ^ 3 \<longrightarrow> formatViews v = Some (Views_number v) \<and> formatViews_v1 v = Some (Views_number v)) \<and>
   (k < 1000 \<longrightarrow> textContent_of (Views_number (of_nat k)) = Some (dec k)) \<and>
   (10 ^ 3 \<le> v \<and> v < 10 ^ 6 \<longrightarrow>
      (\<exists>n. formatViews v = Some (Views_text (one_decimal n @ ''K'')) \<and>
           formatViews_v1 v = Some (Views_text (one_decimal n @ ''K'')) \<and>
           \<bar>of_nat n / 10 - v / 10 ^ 3\<bar> \<le> 1 / 20 + v / 10 ^ 3 / 2 ^ 53)) \<and>
   (10 ^ 6 \<le> v \<and> v < 10 ^ 9 \<longrightarrow>
      (\<exists>n. formatViews v = Some (Views_text (one_decimal n @ ''M'')) \<and>
           formatViews_v1 v = Some (Views_text (one_decimal n @ ''M'')) \<and>
           \<bar>of_nat n / 10 - v / 10 ^ 6\<bar> \<le> 1 / 20 + v / 10 ^ 6 / 2 ^ 53)) \<and>
   (10 ^ 9 \<le> v \<and> v < 10 ^ 29 \<longrightarrow>
      (\<exists>n. formatViews v = Some (Views_text (one_decimal n @ ''B'')) \<and>
           \<bar>of_nat n / 10 - v / 10 ^ 9\<bar> \<le> 1 / 20 + v / 10 ^ 9 / 2 ^ 53)) \<and>
   (10 ^ 9 \<le> v \<and> v < 10 ^ 26 \<longrightarrow>
      (\<exists>n. formatViews_v1 v = Some (Views_text (one_decimal n @ ''M'')) \<and>
           \<bar>of_nat n / 10 - v / 10 ^ 6\<bar> \<le> 1 / 20 + v / 10 ^ 6 / 2 ^ 53)) \<and>
   formatViews 999 = Some (Views_number 999) \<and>
   textContent_of (Views_number 999) = Some ''999'' \<and>
   formatViews 1500 = Some (Views_text ''1.5K'') \<and>
   formatViews 2300000 = Some (Views_text ''2.3M'') \<and>
   formatViews 4000000000 = Some (Views_text ''4.0B'') \<and>
   formatViews_v1 999 = Some (Views_number 999) \<and>
   formatViews_v1 1500 = Some (Views_text ''1.5K'') \<and>
   formatViews_v1 2300000 = Some (Views_text ''2.3M'') \<and>
   formatViews_v1 4000000000 = Some (Views_text ''4000.0M'')"
proof -
  have a: "v < 10 ^ 3 \<longrightarrow> formatViews v = Some (Views_number v) \<and> formatViews_v1 v = Some (Views_number v)"
    using rule_number[of v] by blast
  have b: "k < 1000 \<longrightarrow> textContent_of (Views_number (of_nat k)) = Some (dec k)"
    using plain_below_1000[of k] by blast
  have c: "10 ^ 3 \<le> v \<and> v < 10 ^ 6 \<longrightarrow>
        (\<exists>n. formatViews v = Some (Views_text (one_decimal n @ ''K'')) \<and>
             formatViews_v1 v = Some (Views_text (one_decimal n @ ''K'')) \<and>
             \<bar>of_nat n / 10 - v / 10 ^ 3\<bar> \<le> 1 / 20 + v / 10 ^ 3 / 2 ^ 53)"
    using rule_K[of v] by blast
  have d: "10 ^ 6 \<le> v \<and> v < 10 ^ 9 \<longrightarrow>
        (\<exists>n. formatViews v = Some (Views_text (one_decimal n @ ''M'')) \<and>
             formatViews_v1 v = Some (Views_text (one_decimal n @ ''M'')) \<and>
             \<bar>of_nat n / 10 - v / 10 ^ 6\<bar> \<le> 1 / 20 + v / 10 ^ 6 / 2 ^ 53)"
    using rule_M[of v] by blast
  have e: "10 ^ 9 \<le> v \<and> v < 10 ^ 29 \<longrightarrow>
        (\<exists>n. formatViews v = Some (Views_text (one_decimal n @ ''B'')) \<and>
             \<bar>of_nat n / 10 - v / 10 ^ 9\<bar> \<le> 1 / 20 + v / 10 ^ 9 / 2 ^ 53)"
    using rule_B[of v] by blast
  have f: "10 ^ 9 \<le> v \<and> v < 10 ^ 26 \<longrightarrow>
        (\<exists>n. formatViews_v1 v = Some (Views_text (one_decimal n @ ''M'')) \<and>
             \<bar>of_nat n / 10 - v / 10 ^ 6\<bar> \<le> 1 / 20 + v / 10 ^ 6 / 2 ^ 53)"
    using rule_v1_M[of v] by blast
  have examples:
    "formatViews 999 = Some (Views_number 999) \<and>
     textContent_of (Views_number 999) = Some ''999'' \<and>
     formatViews 1500 = Some (Views_text ''1.5K'') \<and>
     formatViews 2300000 = Some (Views_text ''2.3M'') \<and>
     formatViews 4000000000 = Some (Views_text ''4.0B'') \<and>
     formatViews_v1 999 = Some (Views_number 999) \<and>
     formatViews_v1 1500 = Some (Views_text ''1.5K'') \<and>
     formatViews_v1 2300000 = Some (Views_text ''2.3M'') \<and>
     formatViews_v1 4000000000 = Some (Views_text ''4000.0M'')"
    using format_999 format_1500 format_2300000 format_4000000000 text_999 by simp
  show ?thesis
    by (rule conjI[OF a conjI[OF b conjI[OF c conjI[OF d conjI[OF e conjI[OF f examples]]]]]])
qed

text \<open>One count from each range.\<close>

theorem formatViews_rule_witness:
  "(\<exists>n. formatViews 1500 = Some (Views_text (one_decimal n @ ''K'')) \<and>
        formatViews_v1 1500 = Some (Views_text (one_decimal n @ ''K'')) \<and>
        \<bar>of_nat n / 10 - (1500 :: rat) / 10 ^ 3\<bar> \<le> 1 / 20 + 1500 / 10 ^ 3 / 2 ^ 53) \<and>
   (\<exists>n. formatViews 2300000 = Some (Views_text (one_decimal n @ ''M'')) \<and>
        formatViews_v1 2300000 = Some (Views_text (one_decimal n @ ''M'')) \<and>
        \<bar>of_nat n / 10 - (2300000 :: rat) / 10 ^ 6\<bar> \<le> 1 / 20 + 2300000 / 10 ^ 6 / 2 ^ 53) \<and>
   (\<exists>n. formatViews 4000000000 = Some (Views_text (one_decimal n @ ''B'')) \<and>
        \<bar>of_nat n / 10 - (4000000000 :: rat) / 10 ^ 9\<bar> \<le> 1 / 20 + 4000000000 / 10 ^ 9 / 2 ^ 53) \<and>
   (\<exists>n. formatViews_v1 4000000000 = Some (Views_text (one_decimal n @ ''M'')) \<and>
        \<bar>of_nat n / 10 - (4000000000 :: rat) / 10 ^ 6\<bar> \<le> 1 / 20 + 4000000000 / 10 ^ 6 / 2 ^ 53) \<and>
   formatViews 999 = Some (Views_number 999) \<and>
   formatViews_v1 999 = Some (Views_number 999) \<and>
   textContent_of (Views_number (of_nat 999)) = Some (dec 999) \<and>
   dec 999 = ''999'' \<and>
   one_decimal 15 = ''1.5'' \<and> one_decimal 23 = ''2.3'' \<and> one_decimal 40 = ''4.0'' \<and>
   one_decimal 40000 = ''4000.0''"
proof -
  have hK: "(10 :: rat) ^ 3 \<le> 1500 \<and> (1500 :: rat) < 10 ^ 6"
    and hM: "(10 :: rat) ^ 6 \<le> 2300000 \<and> (2300000 :: rat) < 10 ^ 9"
    and hB: "(10 :: rat) ^ 9 \<le> 4000000000 \<and> (4000000000 :: rat) < 10 ^ 29"
    and hB1: "(10 :: rat) ^ 9 \<le> 4000000000 \<and> (4000000000 :: rat) < 10 ^ 26"
    and hN: "(999 :: rat) < 10 ^ 3" and hk: "(999 :: nat) < 1000"
    by simp_all
  have K: "\<exists>n. formatViews 1500 = Some (Views_text (one_decimal n @ ''K'')) \<and>
        formatViews_v1 1500 = Some (Views_text (one_decimal n @ ''K'')) \<and>
        \<bar>of_nat n / 10 - (1500 :: rat) / 10 ^ 3\<bar> \<le> 1 / 20 + 1500 / 10 ^ 3 / 2 ^ 53"
    using formatViews_rule[of 1500 999] hK by blast
  have M: "\<exists>n. formatViews 2300000 = Some (Views_text (one_decimal n @ ''M'')) \<and>
        formatViews_v1 2300000 = Some (Views_text (one_decimal n @ ''M'')) \<and>
        \<bar>of_nat n / 10 - (2300000 :: rat) / 10 ^ 6\<bar> \<le> 1 / 20 + 2300000 / 10 ^ 6 / 2 ^ 53"
    using formatViews_rule[of 2300000 999] hM by blast
  have B: "\<exists>n. formatViews 4000000000 = Some (Views_text (one_decimal n @ ''B'')) \<and>
        \<bar>of_nat n / 10 - (4000000000 :: rat) / 10 ^ 9\<bar> \<le> 1 / 20 + 4000000000 / 10 ^ 9 / 2 ^ 53"
    using formatViews_rule[of 4000000000 999] hB by blast
  have B1: "\<exists>n. formatViews_v1 4000000000 = Some (Views_text (one_decimal n @ ''M'')) \<and>
        \<bar>of_nat n / 10 - (4000000000 :: rat) / 10 ^ 6\<bar> \<le> 1 / 20 + 4000000000 / 10 ^ 6 / 2 ^ 53"
    using formatViews_rule[of 4000000000 999] hB1 by blast
  have N: "formatViews 999 = Some (Views_number 999)" "formatViews_v1 999 = Some (Views_number 999)"
    "textContent_of (Views_number (of_nat 999)) = Some (dec 999)"
    using formatViews_rule[of 999 999] hN hk by blast+
  have D: "dec 999 = ''999''" "one_decimal 15 = ''1.5''" "one_decimal 23 = ''2.3''"
    "one_decimal 40 = ''4.0''" "one_decimal 40000 = ''4000.0''"
    by (simp_all add: one_decimal_def)
  show ?thesis
    by (intro conjI K M B B1 N D)
qed

subsection \<open>isValidYouTubeUrl\<close>

lemma dot_plus_iff:
  "r \<in> set (dot_plus s) \<longleftrightarrow> (\<exists>m. s = m @ r \<and> m \<noteq> [] \<and> (\<forall>c\<in>set m. \<not> line_terminator c))"
proof (induction s)
  case Nil
  then show ?case by simp
next
  case (Cons c cs)
  show ?case
  proof
    assume "r \<in> set (dot_plus (c # cs))"
    then have nl: "\<not> line_terminator c" and "r = cs \<or> r \<in> set (dot_plus cs)"
      by (auto split: if_splits)
    then consider "r = cs" | m where "cs = m @ r" "m \<noteq> []" "\<forall>c\<in>set m. \<not> line_terminator c"
      using Cons.IH by auto
    then show "\<exists>m. c # cs = m @ r \<and> m \<noteq> [] \<and> (\<forall>c\<in>set m. \<not> line_terminator c)"
    proof cases
      case 1
      then show ?thesis using nl by (intro exI[of _ "[c]"]) simp
    next
      case 2
      then show ?thesis using nl by (intro exI[of _ "c # m"]) simp
    qed
  next
    assume "\<exists>m. c # cs = m @ r \<and> m \<noteq> [] \<and> (\<forall>c\<in>set m. \<not> line_terminator c)"
    then obtain m where m: "c # cs = m @ r" "m \<noteq> []" "\<forall>c\<in>set m. \<not> line_terminator c"
      by blast
    then obtain m' where m': "m = c # m'" "cs = m' @ r"
      by (cases m) auto
    show "r \<in> set (dot_plus (c # cs))"
    proof (cases "m' = []")
      case True
      then show ?thesis using m m' by simp
    next
      case False
      then have "r \<in> set (dot_plus cs)"
        using Cons.IH m m' by auto
      then show ?thesis using m m' by simp
    qed
  qed
qed

lemma rmatch_iff: "r \<in> set (rmatch rx s) \<longleftrightarrow> (\<exists>m. s = m @ r \<and> matches rx m r)"
proof (induction rx arbitrary: s r)
  case (Lit l)
  show ?case by (auto simp: prefix_def)
next
  case Dot_plus
  show ?case by (simp add: dot_plus_iff)
next
  case End_of_input
  show ?case by auto
next
  case (Opt rx)
  show ?case by (auto simp: Opt.IH)
next
  case (Alt a b)
  show ?case by (auto simp: Alt.IH)
next
  case (Seq a b)
  show ?case
  proof
    assume "r \<in> set (rmatch (Seq a b) s)"
    then obtain x where x: "x \<in> set (rmatch a s)" "r \<in> set (rmatch b x)"
      by auto
    from x(1) obtain m1 where m1: "s = m1 @ x" "matches a m1 x"
      using Seq.IH(1) by blast
    from x(2) obtain m2 where m2: "x = m2 @ r" "matches b m2 r"
      using Seq.IH(2) by blast
    have "s = (m1 @ m2) @ r \<and> matches (Seq a b) (m1 @ m2) r"
      using m1 m2 by auto
    then show "\<exists>m. s = m @ r \<and> matches (Seq a b) m r"
      by blast
  next
    assume "\<exists>m. s = m @ r \<and> matches (Seq a b) m r"
    then obtain m1 m2 where m: "s = (m1 @ m2) @ r" "matches a m1 (m2 @ r)" "matches b m2 r"
      by auto
    have "m2 @ r \<in> set (rmatch a s)"
      using Seq.IH(1) m(1,2) by auto
    moreover have "r \<in> set (rmatch b (m2 @ r))"
      using Seq.IH(2) m(3) by auto
    ultimately show "r \<in> set (rmatch (Seq a b) s)"
      by auto
  qed
qed

lemma test_iff: "test rx s \<longleftrightarrow> (\<exists>m r. s = m @ r \<and> matches rx m r)"
proof -
  have "test rx s \<longleftrightarrow> (\<exists>r. r \<in> set (rmatch rx s))"
    unfolding test_def by (cases "rmatch rx s") auto
  then show ?thesis by (auto simp: rmatch_iff)
qed

lemma testI: "r \<in> set (rmatch rx s) \<Longrightarrow> test rx s"
  unfolding test_def by auto

lemma rmatch_Seq: "x \<in> set (rmatch a s) \<Longrightarrow> r \<in> set (rmatch b x) \<Longrightarrow> r \<in> set (rmatch (Seq a b) s)"
  by auto

lemma rmatch_Alt2: "r \<in> set (rmatch b s) \<Longrightarrow> r \<in> set (rmatch (Alt a b) s)"
  by simp

lemma rmatch_https: "sch = ''http://'' \<or> sch = ''https://'' \<Longrightarrow> s \<in> set (rmatch https (sch @ s))"
  unfolding https_def by (elim disjE) simp_all

lemma rmatch_www: "www = [] \<or> www = ''www.'' \<Longrightarrow> s \<in> set (rmatch (Opt (Lit ''www.'')) (www @ s))"
  by (elim disjE) simp_all

lemma rmatch_tail:
  assumes "v \<noteq> []" "\<forall>c\<in>set v. \<not> line_terminator c"
  shows "[] \<in> set (rmatch (Seq Dot_plus End_of_input) v)"
proof -
  have "[] \<in> set (dot_plus v)"
    using assms by (simp add: dot_plus_iff)
  then show ?thesis by (intro rmatch_Seq[where x = "[]"]) simp_all
qed

lemma rmatch_opt_https:
  "sch = [] \<or> sch = ''http://'' \<or> sch = ''https://'' \<Longrightarrow> s \<in> set (rmatch (Opt https) (sch @ s))"
  unfolding https_def by (elim disjE) simp_all

lemma rmatch_domain:
  "d = ''youtube.com'' \<or> d = ''youtu.be'' \<Longrightarrow>
   s \<in> set (rmatch (Alt (Lit ''youtube.com'') (Seq (Lit ''youtu'') (Seq (Opt (Lit ''.'')) (Lit ''be'')))) (d @ s))"
  by (elim disjE) simp_all

lemma pattern1_accepts:
  assumes sch: "sch = [] \<or> sch = ''http://'' \<or> sch = ''https://''"
    and www: "www = [] \<or> www = ''www.''"
    and dom: "d = ''youtube.com'' \<or> d = ''youtu.be''"
    and v: "v \<noteq> []" "\<forall>c\<in>set v. \<not> line_terminator c"
  shows "test pattern1 (sch @ www @ d @ ''/'' @ v)"
proof -
  have 4: "v \<in> set (rmatch (Lit ''/'') (''/'' @ v))"
    by simp
  have "[] \<in> set (rmatch pattern1 (sch @ www @ d @ ''/'' @ v))"
    unfolding pattern1_def
    by (intro rmatch_Seq[OF rmatch_opt_https[OF sch]] rmatch_Seq[OF rmatch_www[OF www]]
          rmatch_Seq[OF rmatch_domain[OF dom]] rmatch_Seq[OF 4] rmatch_tail v)
  then show ?thesis
    by (auto intro: testI)
qed

lemma pattern2_short:
  assumes sch: "sch = ''http://'' \<or> sch = ''https://''"
  shows "test pattern2 (sch @ ''youtu.be/'' @ v)"
proof -
  have "v \<in> set (rmatch pattern2 (sch @ ''youtu.be/'' @ v))"
    unfolding pattern2_def
    by (intro rmatch_Seq[OF rmatch_https[OF sch]]) simp
  then show ?thesis by (rule testI)
qed

lemma pattern2_embed:
  assumes sch: "sch = ''http://'' \<or> sch = ''https://''"
    and www: "www = [] \<or> www = ''www.''"
  shows "test pattern2 (sch @ www @ ''youtube.com/embed/'' @ v)"
proof -
  have "v \<in> set (rmatch (Seq (Lit ''youtube.com/'')
             (Seq (Alt (Lit ''watch'') (Alt (Lit ''embed'') (Lit ''v''))) (Lit ''/''))) (''youtube.com/embed/'' @ v))"
    by simp
  then have "v \<in> set (rmatch (Seq (Opt (Lit ''www.'')) (Seq (Lit ''youtube.com/'')
             (Seq (Alt (Lit ''watch'') (Alt (Lit ''embed'') (Lit ''v''))) (Lit ''/'')))) (www @ ''youtube.com/embed/'' @ v))"
    by (intro rmatch_Seq[OF rmatch_www[OF www]])
  then have "v \<in> set (rmatch pattern2 (sch @ www @ ''youtube.com/embed/'' @ v))"
    unfolding pattern2_def
    by (intro rmatch_Seq[OF rmatch_https[OF sch]] rmatch_Alt2)
  then show ?thesis by (rule testI)
qed

lemma pattern3_accepts:
  assumes sch: "sch = ''http://'' \<or> sch = ''https://''"
  shows "test pattern3 (sch @ ''music.youtube.com/watch?v='' @ v)"
proof -
  have "v \<in> set (rmatch pattern3 (sch @ ''music.youtube.com/watch?v='' @ v))"
    unfolding pattern3_def
    by (intro rmatch_Seq[OF rmatch_https[OF sch]]) simp
  then show ?thesis by (rule testI)
qed

lemma sublist_in_suffix: "sublist x b \<Longrightarrow> sublist x (a @ b)"
  by (metis sublist_append_leftI sublist_order.order_trans)

lemma prefix_sublist_suffix: "prefix x b \<Longrightarrow> sublist x (a @ b @ c)"
  by (meson prefix_imp_sublist sublist_append_leftI sublist_append_rightI sublist_order.order_trans)

lemma matches_domain:
  assumes "matches (Seq (Alt (Lit ''youtube.com'') (Seq (Lit ''youtu'') (Seq (Opt (Lit ''.'')) (Lit ''be''))))
             (Seq (Lit ''/'') rest)) m r"
  shows "prefix ''youtube.com/'' m \<or> prefix ''youtu.be/'' m \<or> prefix ''youtube/'' m"
  using assms by auto

lemma pattern1_needs_domain:
  assumes "test pattern1 s"
  shows "sublist ''youtube.com/'' s \<or> sublist ''youtu.be/'' s \<or> sublist ''youtube/'' s"
proof -
  from assms obtain m r where s: "s = m @ r" and m: "matches pattern1 m r"
    by (auto simp: test_iff)
  from m obtain m1 m2 m3 where m': "m = m1 @ m2 @ m3"
    and "matches (Seq (Alt (Lit ''youtube.com'') (Seq (Lit ''youtu'') (Seq (Opt (Lit ''.'')) (Lit ''be''))))
             (Seq (Lit ''/'') (Seq Dot_plus End_of_input))) m3 r"
    unfolding pattern1_def matches.simps(6)[of "Opt https"] matches.simps(6)[of "Opt (Lit ''www.'')"]
    by blast
  from matches_domain[OF this(2)]
  have "prefix ''youtube.com/'' m3 \<or> prefix ''youtu.be/'' m3 \<or> prefix ''youtube/'' m3" .
  moreover have "s = (m1 @ m2) @ m3 @ r"
    unfolding s m' by simp
  ultimately show ?thesis
    using prefix_sublist_suffix[of _ m3 "m1 @ m2" r] by auto
qed

lemma pattern2_needs_domain:
  assumes "test pattern2 s"
  shows "sublist ''youtube.com/'' s \<or> sublist ''youtu.be/'' s"
proof -
  from assms obtain m r where s: "s = m @ r" and m: "matches pattern2 m r"
    by (auto simp: test_iff)
  from m obtain m1 m2 where m': "m = m1 @ m2"
    and alt: "matches (Alt (Lit ''youtu.be/'')
          (Seq (Opt (Lit ''www.'')) (Seq (Lit ''youtube.com/'')
             (Seq (Alt (Lit ''watch'') (Alt (Lit ''embed'') (Lit ''v''))) (Lit ''/''))))) m2 r"
    unfolding pattern2_def matches.simps(6)[of https]
    by blast
  from alt consider "m2 = ''youtu.be/''"
    | m3 m4 where "m2 = m3 @ m4" "matches (Seq (Lit ''youtube.com/'')
             (Seq (Alt (Lit ''watch'') (Alt (Lit ''embed'') (Lit ''v''))) (Lit ''/''))) m4 r"
    unfolding matches.simps(5) matches.simps(6)[of "Opt (Lit ''www.'')"] matches.simps(1)
    by blast
  then show ?thesis
  proof cases
    case 1
    then have "s = m1 @ ''youtu.be/'' @ r"
      unfolding s m' by simp
    then show ?thesis by (metis sublist_appendI)
  next
    case 2
    then have "prefix ''youtube.com/'' m4"
      by auto
    moreover have "s = (m1 @ m3) @ m4 @ r"
      unfolding s m' 2 by simp
    ultimately show ?thesis
      using prefix_sublist_suffix[of _ m4 "m1 @ m3" r] by auto
  qed
qed

lemma pattern3_needs_domain:
  assumes "test pattern3 s"
  shows "sublist ''youtube.com/'' s"
proof -
  from assms obtain m r where s: "s = m @ r" and m: "matches pattern3 m r"
    by (auto simp: test_iff)
  from m obtain m1 where "m = m1 @ ''music.youtube.com/watch?v=''"
    unfolding pattern3_def by auto
  then have "s = (m1 @ ''music.'') @ ''youtube.com/'' @ (''watch?v='' @ r)"
    unfolding s by simp
  then show ?thesis by (metis sublist_appendI)
qed

lemma js_includes_sublist: "js_includes s t \<longleftrightarrow> sublist t s"
proof (induction s)
  case Nil
  then show ?case by auto
next
  case (Cons c cs)
  then show ?case by (cases t) (auto simp: sublist_code)
qed

lemma isValidYouTubeUrl_needs_domain:
  assumes "isValidYouTubeUrl u"
  shows "js_includes u ''youtube.com/'' \<or> js_includes u ''youtu.be/'' \<or> js_includes u ''youtube/''"
  using assms pattern1_needs_domain pattern2_needs_domain pattern3_needs_domain
  unfolding isValidYouTubeUrl_def js_includes_sublist by auto

text \<open>
  Claim C7, amended: the validator is a function of the string alone.  With either
  scheme and with or without \<open>www.\<close> it accepts the canonical watch link (whose rest
  holds no line break), the shortened link, the embed link and the link of the music
  subdomain; without a scheme it accepts the first three when the identifier is not
  empty and holds no line break.  It rejects every string that contains none of the
  texts \<open>youtube.com/\<close>, \<open>youtu.be/\<close> and \<open>youtube/\<close>.
\<close>

theorem isValidYouTubeUrl_accepts_shapes_rejects_unrelated:
  assumes "sch = ''http://'' \<or> sch = ''https://''"
    and "www = [] \<or> www = ''www.''"
  shows "(list_all (\<lambda>c. \<not> line_terminator c) v \<longrightarrow>
            isValidYouTubeUrl (sch @ www @ ''youtube.com/watch?v='' @ v)) \<and>
         isValidYouTubeUrl (sch @ ''youtu.be/'' @ v) \<and>
         isValidYouTubeUrl (sch @ www @ ''youtube.com/embed/'' @ v) \<and>
         isValidYouTubeUrl (sch @ ''music.youtube.com/watch?v='' @ v) \<and>
         (v \<noteq> [] \<and> list_all (\<lambda>c. \<not> line_terminator c) v \<longrightarrow>
            isValidYouTubeUrl (www @ ''youtube.com/watch?v='' @ v) \<and>
            isValidYouTubeUrl (''youtu.be/'' @ v) \<and>
            isValidYouTubeUrl (www @ ''youtube.com/embed/'' @ v)) \<and>
         (\<not> js_includes u ''youtube.com/'' \<and> \<not> js_includes u ''youtu.be/'' \<and> \<not> js_includes u ''youtube/''
            \<longrightarrow> \<not> isValidYouTubeUrl u)"
proof -
  have sch': "sch = [] \<or> sch = ''http://'' \<or> sch = ''https://''"
    using assms(1) by simp
  have tail_watch: "\<forall>c\<in>set (''watch?v='' @ v). \<not> line_terminator c"
    if "list_all (\<lambda>c. \<not> line_terminator c) v"
    using that by (auto simp: list_all_iff line_terminator_def)
  have tail_embed: "\<forall>c\<in>set (''embed/'' @ v). \<not> line_terminator c"
    if "list_all (\<lambda>c. \<not> line_terminator c) v"
    using that by (auto simp: list_all_iff line_terminator_def)
  have watch: "isValidYouTubeUrl (sch @ www @ ''youtube.com/watch?v='' @ v)"
    if "list_all (\<lambda>c. \<not> line_terminator c) v"
  proof -
    have "test pattern1 (sch @ www @ ''youtube.com'' @ ''/'' @ (''watch?v='' @ v))"
      using tail_watch[OF that] by (intro pattern1_accepts sch' assms) simp_all
    then show ?thesis
      by (simp add: isValidYouTubeUrl_def)
  qed
  have short: "isValidYouTubeUrl (sch @ ''youtu.be/'' @ v)"
    using pattern2_short[OF assms(1), of v] by (simp add: isValidYouTubeUrl_def)
  have embed: "isValidYouTubeUrl (sch @ www @ ''youtube.com/embed/'' @ v)"
    using pattern2_embed[OF assms, of v] by (simp add: isValidYouTubeUrl_def)
  have music: "isValidYouTubeUrl (sch @ ''music.youtube.com/watch?v='' @ v)"
    using pattern3_accepts[OF assms(1), of v] by (simp add: isValidYouTubeUrl_def)
  have bare: "isValidYouTubeUrl (www @ ''youtube.com/watch?v='' @ v) \<and>
              isValidYouTubeUrl (''youtu.be/'' @ v) \<and>
              isValidYouTubeUrl (www @ ''youtube.com/embed/'' @ v)"
    if v: "v \<noteq> []" "list_all (\<lambda>c. \<not> line_terminator c) v"
  proof -
    have "test pattern1 ([] @ www @ ''youtube.com'' @ ''/'' @ (''watch?v='' @ v))"
      using tail_watch[OF v(2)] by (intro pattern1_accepts assms) simp_all
    moreover have "test pattern1 ([] @ [] @ ''youtu.be'' @ ''/'' @ v)"
      using v by (intro pattern1_accepts) (simp_all add: list_all_iff)
    moreover have "test pattern1 ([] @ www @ ''youtube.com'' @ ''/'' @ (''embed/'' @ v))"
      using tail_embed[OF v(2)] by (intro pattern1_accepts assms) simp_all
    ultimately show ?thesis
      by (simp add: isValidYouTubeUrl_def)
  qed
  show ?thesis
    using watch short embed music bare isValidYouTubeUrl_needs_domain[of u] by blast
qed

text \<open>The four shapes at a sample identifier, two of them bare, and a link to another site.\<close>

theorem isValidYouTubeUrl_witness:
  "isValidYouTubeUrl ''https://www.youtube.com/watch?v=dQw4w9WgXcQ'' \<and>
   isValidYouTubeUrl ''https://youtu.be/dQw4w9WgXcQ'' \<and>
   isValidYouTubeUrl ''https://www.youtube.com/embed/dQw4w9WgXcQ'' \<and>
   isValidYouTubeUrl ''https://music.youtube.com/watch?v=dQw4w9WgXcQ'' \<and>
   isValidYouTubeUrl ''www.youtube.com/watch?v=dQw4w9WgXcQ'' \<and>
   isValidYouTubeUrl ''youtu.be/dQw4w9WgXcQ'' \<and>
   \<not> isValidYouTubeUrl ''https://example.com/watch?v=dQw4w9WgXcQ''"
  using isValidYouTubeUrl_accepts_shapes_rejects_unrelated
          [of "''https://''" "''www.''" "''dQw4w9WgXcQ''" "''https://example.com/watch?v=dQw4w9WgXcQ''"]
  by (simp add: line_terminator_def)

text \<open>
  The pattern for the music subdomain asks for the scheme, and the first pattern does
  not know the subdomain: the bare music link is rejected.
\<close>

lemma bare_music_link_rejected: "\<not> isValidYouTubeUrl ''music.youtube.com/watch?v=dQw4w9WgXcQ''"
  by (simp add: isValidYouTubeUrl_def test_def pattern1_def pattern2_def pattern3_def https_def
        line_terminator_def)

text \<open>
  Claim C7, as stated, fails: the dot of \<open>youtu\.?be\<close> is optional, so a string that
  contains neither \<open>youtube.com\<close> nor \<open>youtu.be\<close> is accepted.
\<close>

theorem isValidYouTubeUrl_accepts_without_domain:
  "isValidYouTubeUrl ''youtube/x'' \<and>
   \<not> js_includes ''youtube/x'' ''youtube.com'' \<and> \<not> js_includes ''youtube/x'' ''youtu.be''"
  by (simp add: isValidYouTubeUrl_def test_def pattern1_def pattern2_def pattern3_def https_def
        line_terminator_def)

subsection \<open>escapeHtml and displayDownloads\<close>

lemma replace_all_removes: "c \<notin> set r \<Longrightarrow> c \<notin> set (replace_all c r s)"
  by (induction s) (auto simp: replace_all_def)

lemma replace_all_keeps_out: "x \<notin> set s \<Longrightarrow> x \<notin> set r \<Longrightarrow> x \<notin> set (replace_all c r s)"
  by (induction s) (auto simp: replace_all_def)

lemma escapeHtml_no_brackets: "CHR ''<'' \<notin> set (escapeHtml s) \<and> CHR ''>'' \<notin> set (escapeHtml s)"
  by (induction s) (auto simp: escapeHtml_def)

lemma escapeHtml_v1_no_markup:
  \<open>CHR ''<'' \<notin> set (escapeHtml_v1 s) \<and> CHR ''>'' \<notin> set (escapeHtml_v1 s) \<and>
   CHR ''"'' \<notin> set (escapeHtml_v1 s) \<and> CHR 0x27 \<notin> set (escapeHtml_v1 s)\<close>
proof -
  let ?a = "replace_all (CHR ''&'') ''&amp;'' s"
  let ?b = "replace_all (CHR ''<'') ''&lt;'' ?a"
  let ?c = "replace_all (CHR ''>'') ''&gt;'' ?b"
  let ?d = \<open>replace_all (CHR ''"'') ''&quot;'' ?c\<close>
  have lt_b: "CHR ''<'' \<notin> set ?b"
    by (rule replace_all_removes) simp
  have gt_c: "CHR ''>'' \<notin> set ?c"
    by (rule replace_all_removes) simp
  have lt_c: "CHR ''<'' \<notin> set ?c"
    using lt_b by (rule replace_all_keeps_out) simp
  have qu_d: \<open>CHR ''"'' \<notin> set ?d\<close>
    by (rule replace_all_removes) simp
  have lt_d: "CHR ''<'' \<notin> set ?d"
    using lt_c by (rule replace_all_keeps_out) simp
  have gt_d: "CHR ''>'' \<notin> set ?d"
    using gt_c by (rule replace_all_keeps_out) simp
  have "CHR ''<'' \<notin> set (escapeHtml_v1 s)"
    unfolding escapeHtml_v1_def using lt_d by (rule replace_all_keeps_out) simp
  moreover have "CHR ''>'' \<notin> set (escapeHtml_v1 s)"
    unfolding escapeHtml_v1_def using gt_d by (rule replace_all_keeps_out) simp
  moreover have \<open>CHR ''"'' \<notin> set (escapeHtml_v1 s)\<close>
    unfolding escapeHtml_v1_def using qu_d by (rule replace_all_keeps_out) simp
  moreover have "CHR 0x27 \<notin> set (escapeHtml_v1 s)"
    unfolding escapeHtml_v1_def by (rule replace_all_removes) simp
  ultimately show ?thesis by blast
qed

lemma includes_middle: "s = a @ t @ b \<Longrightarrow> js_includes s t"
  by (simp add: js_includes_sublist)

lemma includes_trans: "js_includes s t \<Longrightarrow> js_includes t u \<Longrightarrow> js_includes s u"
  unfolding js_includes_sublist by (rule sublist_order.order_trans)

lemma includes_item: "d \<in> set ds \<Longrightarrow> js_includes (concat (map f ds)) (f d)"
proof -
  assume "d \<in> set ds"
  then obtain xs ys where "ds = xs @ d # ys"
    by (auto dest: split_list)
  then have "concat (map f ds) = concat (map f xs) @ f d @ concat (map f ys)"
    by simp
  then show ?thesis by (rule includes_middle)
qed

lemma item_play: "js_includes (download_item fs fd d) (play_button d)"
  unfolding download_item_def by (rule includes_middle[where a = "download_info fs fd d"]) simp

lemma item_download: "js_includes (download_item fs fd d) (download_button d)"
  unfolding download_item_def
  by (rule includes_middle[where a = "download_info fs fd d @ play_button d"]) simp

lemma item_delete: "js_includes (download_item fs fd d) (delete_button d)"
  unfolding download_item_def
  by (rule includes_middle[where a = "download_info fs fd d @ play_button d @ download_button d"]) simp

lemma item_info: "js_includes (download_item fs fd d) (download_info fs fd d)"
  unfolding download_item_def by (rule includes_middle[where a = "[]"]) simp

lemma info_heading: "js_includes (download_info fs fd d) (heading (escapeHtml (name d)))"
  by (rule includes_middle[where a = \<open>''\<newline>''
       @ ''            <div class="download-item">\<newline>''
       @ ''                <div class="download-info">\<newline>''
       @ ''                    ''\<close>])
     (simp add: download_info_def heading_def)

lemma play_onclick: "js_includes (play_button d) (onclick_play (filename d) (escapeHtml (name d)))"
  by (rule includes_middle[where a = \<open>''                    <button class="action-btn play-btn" ''\<close>])
     (simp add: play_button_def onclick_play_def)

lemma download_onclick: "js_includes (download_button d) (onclick_download (filename d))"
  by (rule includes_middle[where a = \<open>''                    <button class="action-btn download-btn" ''\<close>])
     (simp add: download_button_def onclick_download_def)

lemma delete_onclick: "js_includes (delete_button d) (onclick_delete (filename d))"
  by (rule includes_middle[where a = \<open>''                    <button class="action-btn delete-btn" ''\<close>])
     (simp add: delete_button_def onclick_delete_def)

lemma onclick_delete_filename: "js_includes (onclick_delete f) f"
  by (rule includes_middle[where a = \<open>''onclick="deleteFile('' @ [CHR 0x27]\<close>])
     (simp add: onclick_delete_def)


lemma item_play_v1: "js_includes (download_item_v1 fs fd d) (play_button_v1 d)"
  unfolding download_item_v1_def by (rule includes_middle[where a = "download_info_v1 fs fd d"]) simp

lemma item_download_v1: "js_includes (download_item_v1 fs fd d) (download_button_v1 d)"
  unfolding download_item_v1_def
  by (rule includes_middle[where a = "download_info_v1 fs fd d @ play_button_v1 d"]) simp

lemma item_delete_v1: "js_includes (download_item_v1 fs fd d) (delete_button_v1 d)"
  unfolding download_item_v1_def
  by (rule includes_middle[where a = "download_info_v1 fs fd d @ play_button_v1 d @ download_button_v1 d"]) simp

lemma item_info_v1: "js_includes (download_item_v1 fs fd d) (download_info_v1 fs fd d)"
  unfolding download_item_v1_def by (rule includes_middle[where a = "[]"]) simp

lemma info_heading_v1: "js_includes (download_info_v1 fs fd d) (heading (escapeHtml_v1 (name d)))"
  by (rule includes_middle[where a = \<open>''\<newline>''
       @ ''            <div class="download-item">\<newline>''
       @ ''                <div class="download-info">\<newline>''
       @ ''                    ''\<close>])
     (simp add: download_info_v1_def heading_def)

lemma play_onclick_v1: "js_includes (play_button_v1 d) (onclick_play (filename d) (escapeHtml_v1 (name d)))"
  by (rule includes_middle[where a = \<open>''                    <button class="action-btn play-btn" ''\<close>])
     (simp add: play_button_v1_def onclick_play_def)

lemma download_onclick_v1: "js_includes (download_button_v1 d) (onclick_download (filename d))"
  by (rule includes_middle[where a = \<open>''                    <button class="action-btn download-btn" ''\<close>])
     (simp add: download_button_v1_def onclick_download_def)

lemma delete_onclick_v1: "js_includes (delete_button_v1 d) (onclick_delete (filename d))"
  by (rule includes_middle[where a = \<open>''                    <button class="action-btn delete-btn" ''\<close>])
     (simp add: delete_button_v1_def onclick_delete_def)

lemma item_markup: "raw_filename_markup (download_item fs fd d) (filename d) (escapeHtml (name d))"
  unfolding raw_filename_markup_def
  using includes_trans[OF item_info info_heading] includes_trans[OF item_play play_onclick]
    includes_trans[OF item_download download_onclick] includes_trans[OF item_delete delete_onclick]
    includes_trans[OF includes_trans[OF item_delete delete_onclick] onclick_delete_filename]
  by blast

lemma item_markup_v1: "raw_filename_markup (download_item_v1 fs fd d) (filename d) (escapeHtml_v1 (name d))"
  unfolding raw_filename_markup_def
  using includes_trans[OF item_info_v1 info_heading_v1] includes_trans[OF item_play_v1 play_onclick_v1]
    includes_trans[OF item_download_v1 download_onclick_v1] includes_trans[OF item_delete_v1 delete_onclick_v1]
    includes_trans[OF includes_trans[OF item_delete_v1 delete_onclick_v1] onclick_delete_filename]
  by blast

lemma markup_in_list:
  assumes "d \<in> set ds" "raw_filename_markup (f d) g n"
  shows "raw_filename_markup (concat (map f ds)) g n"
  using assms includes_trans[OF includes_item[OF assms(1), of f]]
  unfolding raw_filename_markup_def by blast

text \<open>
  Escaping works character by character.  In the first listing the five replacements
  run one after the other; since the ampersand goes first, the result is the same as
  replacing every character on its own.
\<close>

lemma escapeHtml_entities: "escapeHtml s = concat (map html_entity s)"
  unfolding escapeHtml_def html_entity_def by simp

lemma replace_all_append: "replace_all c r (a @ b) = replace_all c r a @ replace_all c r b"
  by (simp add: replace_all_def)

lemma escapeHtml_v1_append: "escapeHtml_v1 (a @ b) = escapeHtml_v1 a @ escapeHtml_v1 b"
  by (simp add: escapeHtml_v1_def replace_all_append)

lemma escapeHtml_v1_single: "escapeHtml_v1 [c] = html_entity_v1 c"
  by (simp add: escapeHtml_v1_def html_entity_v1_def replace_all_def)

lemma escapeHtml_v1_entities: "escapeHtml_v1 s = concat (map html_entity_v1 s)"
proof (induction s)
  case Nil
  show ?case by (simp add: escapeHtml_v1_def replace_all_def)
next
  case (Cons c cs)
  have "escapeHtml_v1 (c # cs) = escapeHtml_v1 [c] @ escapeHtml_v1 cs"
    using escapeHtml_v1_append[of "[c]" cs] by simp
  then show ?case
    by (simp add: escapeHtml_v1_single Cons.IH)
qed

text \<open>
  Claim C10: when the list element is there and the list is not empty, the markup that
  \<open>displayDownloads\<close> renders holds for every entry the heading with the escaped
  display name and the three inline handlers with the file name as it came, hence the
  raw file name.  The escaped name is the name with each ampersand, angle bracket and
  no-break space (first listing: ampersand, angle bracket and quote) replaced by its
  entity and every other character kept; it holds no angle bracket.  This is so in
  both listings.
\<close>

theorem displayDownloads_escapes_name_not_filename:
  assumes "list \<noteq> None" and "ds \<noteq> []" and "d \<in> set ds"
  shows "(case displayDownloads formatFileSize formatDate (Some ds) list of
            None \<Rightarrow> False
          | Some html \<Rightarrow> raw_filename_markup html (filename d) (concat (map html_entity (name d)))) \<and>
         (case displayDownloads_v1 formatFileSize formatDate ds list of
            None \<Rightarrow> False
          | Some html \<Rightarrow> raw_filename_markup html (filename d) (concat (map html_entity_v1 (name d)))) \<and>
         escapeHtml (name d) = concat (map html_entity (name d)) \<and>
         escapeHtml_v1 (name d) = concat (map html_entity_v1 (name d)) \<and>
         CHR ''<'' \<notin> set (escapeHtml (name d)) \<and> CHR ''>'' \<notin> set (escapeHtml (name d)) \<and>
         CHR ''<'' \<notin> set (escapeHtml_v1 (name d)) \<and> CHR ''>'' \<notin> set (escapeHtml_v1 (name d))"
proof -
  obtain old where list: "list = Some old"
    using assms(1) by auto
  have "raw_filename_markup (concat (map (download_item formatFileSize formatDate) ds))
          (filename d) (escapeHtml (name d))"
    using assms(3) item_markup by (rule markup_in_list)
  moreover have "raw_filename_markup (concat (map (download_item_v1 formatFileSize formatDate) ds))
          (filename d) (escapeHtml_v1 (name d))"
    using assms(3) item_markup_v1 by (rule markup_in_list)
  ultimately show ?thesis
    using assms(2) escapeHtml_no_brackets[of "name d"] escapeHtml_v1_no_markup[of "name d"]
    by (simp add: displayDownloads_def displayDownloads_v1_def list
          escapeHtml_entities[symmetric] escapeHtml_v1_entities[symmetric])
qed

text \<open>An entry whose file name closes the handler's string and whose name is markup.\<close>

theorem displayDownloads_escapes_name_not_filename_witness:
  "(case displayDownloads (\<lambda>b. ''2.00 KB'') (\<lambda>t. ''1/1/1970'') (Some [sample_entry]) (Some []) of
      None \<Rightarrow> False
    | Some html \<Rightarrow> raw_filename_markup html (filename sample_entry) ''&lt;b&gt;Song&lt;/b&gt;'') \<and>
   (case displayDownloads_v1 (\<lambda>b. ''2.00 KB'') (\<lambda>t. ''1/1/1970'') [sample_entry] (Some []) of
      None \<Rightarrow> False
    | Some html \<Rightarrow> raw_filename_markup html (filename sample_entry) ''&lt;b&gt;Song&lt;/b&gt;'') \<and>
   escapeHtml (name sample_entry) = ''&lt;b&gt;Song&lt;/b&gt;'' \<and>
   escapeHtml_v1 (name sample_entry) = ''&lt;b&gt;Song&lt;/b&gt;''"
proof -
  have "Some [] \<noteq> (None :: string option)" and "[sample_entry] \<noteq> []" and "sample_entry \<in> set [sample_entry]"
    by simp_all
  from displayDownloads_escapes_name_not_filename[OF this, of "\<lambda>b. ''2.00 KB''" "\<lambda>t. ''1/1/1970''"]
  have *: "(case displayDownloads (\<lambda>b. ''2.00 KB'') (\<lambda>t. ''1/1/1970'') (Some [sample_entry]) (Some []) of
      None \<Rightarrow> False
    | Some html \<Rightarrow> raw_filename_markup html (filename sample_entry) (concat (map html_entity (name sample_entry)))) \<and>
   (case displayDownloads_v1 (\<lambda>b. ''2.00 KB'') (\<lambda>t. ''1/1/1970'') [sample_entry] (Some []) of
      None \<Rightarrow> False
    | Some html \<Rightarrow> raw_filename_markup html (filename sample_entry) (concat (map html_entity_v1 (name sample_entry)))) \<and>
   escapeHtml (name sample_entry) = concat (map html_entity (name sample_entry)) \<and>
   escapeHtml_v1 (name sample_entry) = concat (map html_entity_v1 (name sample_entry))"
    by blast
  have n: "concat (map html_entity (name sample_entry)) = ''&lt;b&gt;Song&lt;/b&gt;''"
    "concat (map html_entity_v1 (name sample_entry)) = ''&lt;b&gt;Song&lt;/b&gt;''"
    by (simp_all add: sample_entry_def html_entity_def html_entity_v1_def)
  show ?thesis
    using * unfolding n .
qed

subsection \<open>The callback of monitorProgress\<close>

lemmas response_defs = monitorProgress_response_def updateProgress_def clearInterval_def
  showError_def showSuccess_def showNotification_def setTimeout_def loadDownloads_def
  enable_and_schedule_def console_error_def terminal_notice_def
  intervals_without_def timeouts_without_def Let_def

lemma terminal_cases:
  assumes "phase_of p \<noteq> In_progress"
  obtains (by_finished) "finished p = Some True" "truthy (error p)" "phase_of p = Failed"
    | (by_finished_ok) "finished p = Some True" "\<not> truthy (error p)" "phase_of p = Completed"
    | (by_status_ok) "finished p = None" "status p = Some ''completed''" "phase_of p = Completed"
    | (by_status) "finished p = None" "status p = Some ''error''" "phase_of p = Failed"
  using assms by (cases "finished p") (auto simp: phase_of_def split: if_splits)

lemma response_failed: "monitorProgress_response Poll_failed s = s\<lparr>console := console s @ [''Error monitoring progress:'']\<rparr>"
  by (simp add: monitorProgress_response_def console_error_def)

lemma terminal_intervals:
  assumes "phase_of p \<noteq> In_progress"
  shows "intervals (monitorProgress_response (Poll_json p) s) = intervals_without (progressInterval s) (intervals s)"
  using assms by (cases p rule: terminal_cases) (simp_all add: response_defs split: option.splits)

lemma terminal_notifications:
  assumes "phase_of p \<noteq> In_progress"
  shows "notifications (monitorProgress_response (Poll_json p) s) =
           notifications s @ [\<lparr>nid = next_handle s, notice = terminal_notice p\<rparr>]"
  using assms by (cases p rule: terminal_cases) (simp_all add: response_defs split: option.splits)

lemma terminal_button:
  assumes "phase_of p \<noteq> In_progress" "downloadBtn s \<noteq> None"
  shows "downloadBtn (monitorProgress_response (Poll_json p) s) = Some \<lparr>disabled = False, innerHTML = download_label\<rparr>"
  using assms by (cases p rule: terminal_cases) (auto simp add: response_defs split: option.splits)

lemma terminal_timeouts:
  assumes "phase_of p \<noteq> In_progress" "downloadBtn s \<noteq> None"
  shows "timeouts (monitorProgress_response (Poll_json p) s) =
           timeouts_without (progressInterval s) (timeouts s) @
             [\<lparr>handle = next_handle s, delay = 5000, action = Remove_notification (next_handle s)\<rparr>,
              \<lparr>handle = Suc (next_handle s), delay = 3000, action = Hide_progress_and_clear_id\<rparr>]"
  using assms by (cases p rule: terminal_cases) (auto simp add: response_defs split: option.splits)


lemma terminal_slot:
  assumes "phase_of p \<noteq> In_progress"
  shows "progressInterval (monitorProgress_response (Poll_json p) s) = progressInterval s"
  using assms by (cases p rule: terminal_cases) (simp_all add: response_defs split: option.splits)

lemma terminal_next_handle:
  assumes "phase_of p \<noteq> In_progress" "downloadBtn s \<noteq> None"
  shows "next_handle (monitorProgress_response (Poll_json p) s) = Suc (Suc (next_handle s))"
  using assms by (cases p rule: terminal_cases) (auto simp add: response_defs split: option.splits)

lemma terminal_list_requests:
  assumes "phase_of p \<noteq> In_progress"
  shows "list_requests (monitorProgress_response (Poll_json p) s) =
           (if phase_of p = Completed then Suc (list_requests s) else list_requests s)"
  using assms by (cases p rule: terminal_cases) (simp_all add: response_defs split: option.splits)

lemma terminal_status:
  assumes "phase_of p \<noteq> In_progress"
  shows "progressStatus (monitorProgress_response (Poll_json p) s) =
           map_option (\<lambda>t. if phase_of p = Completed then ''Completed!'' else ''Error occurred'') (progressStatus s)"
  using assms
  by (cases p rule: terminal_cases) (simp_all add: response_defs status_text_def split: option.splits)

lemma in_progress_frame:
  assumes "reported r \<noteq> Some Completed" "reported r \<noteq> Some Failed"
  shows "intervals (monitorProgress_response r s) = intervals s \<and>
         timeouts (monitorProgress_response r s) = timeouts s \<and>
         notifications (monitorProgress_response r s) = notifications s \<and>
         currentDownloadId (monitorProgress_response r s) = currentDownloadId s \<and>
         progressInterval (monitorProgress_response r s) = progressInterval s \<and>
         downloadBtn (monitorProgress_response r s) = downloadBtn s \<and>
         list_requests (monitorProgress_response r s) = list_requests s"
proof (cases r)
  case Poll_failed
  then show ?thesis by (simp add: response_failed)
next
  case (Poll_json p)
  then have "phase_of p = In_progress"
    using assms by (cases "phase_of p") (simp_all add: reported_def)
  then have "monitorProgress_response (Poll_json p) s =
      updateProgress (if finished p \<noteq> None
        then \<lparr>finished = None, progress = Some (case progress p of None \<Rightarrow> 0 | Some x \<Rightarrow> x),
              status = Some ''downloading'', error = error p\<rparr> else p) s"
    by (cases "finished p") (auto simp: monitorProgress_response_def phase_of_def Let_def split: if_splits)
  then show ?thesis
    unfolding Poll_json by (simp add: updateProgress_def)
qed

lemma not_polling_without: "progressInterval s' = h \<Longrightarrow> intervals s' = intervals_without h xs \<Longrightarrow> \<not> polling s'"
  by (cases h) (simp_all add: polling_def intervals_without_def)

text \<open>The same facts for the callback of the first listing.\<close>

lemmas response_v1_defs = monitorProgress_response_v1_def updateProgress_v1_def clearInterval_def
  showError_v1_def showSuccess_v1_def setTimeout_def loadDownloads_def
  enable_and_schedule_def console_error_def terminal_alert_def
  intervals_without_def timeouts_without_def Let_def

lemma response_v1_failed:
  "monitorProgress_response_v1 Poll_failed s = s\<lparr>console := console s @ [''Error monitoring progress:'']\<rparr>"
  by (simp add: monitorProgress_response_v1_def console_error_def)

lemma terminal_v1_cases:
  assumes "phase_of_v1 p \<noteq> In_progress"
  obtains (completed) "status p = Some ''completed''" "phase_of_v1 p = Completed"
    | (error) "status p = Some ''error''" "phase_of_v1 p = Failed"
  using assms by (auto simp: phase_of_v1_def split: if_splits)

lemma terminal_v1:
  assumes "phase_of_v1 p \<noteq> In_progress"
    and "progressFill s \<noteq> None" "progressText s \<noteq> None" "progressStatus s \<noteq> None"
    and "downloadBtn s \<noteq> None"
  shows "intervals (monitorProgress_response_v1 (Poll_json p) s) = intervals_without (progressInterval s) (intervals s)"
    and "progressInterval (monitorProgress_response_v1 (Poll_json p) s) = progressInterval s"
    and "alerts (monitorProgress_response_v1 (Poll_json p) s) = alerts s @ [terminal_alert p]"
    and "downloadBtn (monitorProgress_response_v1 (Poll_json p) s) = Some \<lparr>disabled = False, innerHTML = download_label\<rparr>"
    and "timeouts (monitorProgress_response_v1 (Poll_json p) s) =
           timeouts_without (progressInterval s) (timeouts s) @
             [\<lparr>handle = next_handle s, delay = 2000, action = Hide_progress_and_clear_id\<rparr>]"
  using assms
  by (cases p rule: terminal_v1_cases; auto simp add: response_v1_defs split: option.splits)+

lemma in_progress_v1_frame:
  assumes "reported_v1 r \<noteq> Some Completed" "reported_v1 r \<noteq> Some Failed"
  shows "intervals (monitorProgress_response_v1 r s) = intervals s \<and>
         timeouts (monitorProgress_response_v1 r s) = timeouts s \<and>
         alerts (monitorProgress_response_v1 r s) = alerts s \<and>
         currentDownloadId (monitorProgress_response_v1 r s) = currentDownloadId s \<and>
         progressInterval (monitorProgress_response_v1 r s) = progressInterval s \<and>
         downloadBtn (monitorProgress_response_v1 r s) = downloadBtn s \<and>
         list_requests (monitorProgress_response_v1 r s) = list_requests s"
proof (cases r)
  case Poll_failed
  then show ?thesis by (simp add: response_v1_failed)
next
  case (Poll_json p)
  then have "phase_of_v1 p = In_progress"
    using assms by (cases "phase_of_v1 p") (simp_all add: reported_v1_def)
  then have st: "status p \<noteq> Some ''completed''" "status p \<noteq> Some ''error''"
    by (auto simp: phase_of_v1_def split: if_splits)
  show ?thesis
    unfolding Poll_json using st
    by (simp add: monitorProgress_response_v1_def updateProgress_v1_def console_error_def Let_def
          split: option.splits)
qed

lemmas sample_defs = polling_state_def new_YouTubeDownloader_def monitorProgress_def
  showProgressSection_def completed_reply_def status_shape_def finished_shape_def

lemma polling_state_v1:
  "monitorProgress_v1 (new_YouTubeDownloader\<lparr>currentDownloadId := Some ''job1''\<rparr>) = polling_state"
  by (simp add: monitorProgress_v1_def polling_state_def new_YouTubeDownloader_def)

lemma run_timeout_hide:
  "currentDownloadId (run_timeout Hide_progress_and_clear_id t) = None \<and>
   progressSection (run_timeout Hide_progress_and_clear_id t) = map_option (\<lambda>h. True) (progressSection t)"
  by (simp add: run_timeout_def hideProgressSection_def)

lemma run_timeout_v1_hide:
  "progressSection t \<noteq> None \<Longrightarrow>
   currentDownloadId (run_timeout_v1 Hide_progress_and_clear_id t) = None \<and>
   progressSection (run_timeout_v1 Hide_progress_and_clear_id t) = Some True"
  by (auto simp add: run_timeout_v1_def hideProgressSection_def)

text \<open>
  The callback itself never touches the progress section or the job identifier; the
  timeout it sets does, when it fires.
\<close>

lemma response_keeps_section_and_id:
  "progressSection (monitorProgress_response r s) = progressSection s \<and>
   currentDownloadId (monitorProgress_response r s) = currentDownloadId s"
  by (cases r) (auto simp: response_defs split: option.splits)

lemma response_v1_keeps_section_and_id:
  "progressSection (monitorProgress_response_v1 r s) = progressSection s \<and>
   currentDownloadId (monitorProgress_response_v1 r s) = currentDownloadId s"
  by (cases r) (auto simp: response_v1_defs split: option.splits sum.splits)

lemma find_old_timers:
  assumes "list_all (\<lambda>t. handle t < n) ts"
  shows "find (\<lambda>t. handle t = Suc n) (timeouts_without h ts) = None"
proof -
  have "\<forall>t\<in>set (timeouts_without h ts). handle t \<noteq> Suc n"
    using assms by (cases h) (auto simp: timeouts_without_def list_all_iff)
  then show ?thesis
    by (simp add: find_None_iff)
qed

lemma find_append_None: "find P xs = None \<Longrightarrow> find P (xs @ ys) = find P ys"
  by (induction xs) (auto split: if_splits)

lemma grace_timer_fires:
  assumes "phase_of p \<noteq> In_progress" "downloadBtn s \<noteq> None" "timers_issued s"
  shows "\<exists>t. step (Timeout_fires (Suc (next_handle s))) (monitorProgress_response (Poll_json p) s) = Some t \<and>
             currentDownloadId t = None \<and>
             progressSection t = map_option (\<lambda>h. True) (progressSection s)"
proof -
  let ?s' = "monitorProgress_response (Poll_json p) s"
  have to: "timeouts ?s' = timeouts_without (progressInterval s) (timeouts s) @
             [\<lparr>handle = next_handle s, delay = 5000, action = Remove_notification (next_handle s)\<rparr>,
              \<lparr>handle = Suc (next_handle s), delay = 3000, action = Hide_progress_and_clear_id\<rparr>]"
    using terminal_timeouts[OF assms(1,2)] .
  have old: "find (\<lambda>t. handle t = Suc (next_handle s)) (timeouts_without (progressInterval s) (timeouts s)) = None"
    using assms(3) unfolding timers_issued_def by (rule find_old_timers)
  have found: "find (\<lambda>t. handle t = Suc (next_handle s)) (timeouts ?s') =
      Some \<lparr>handle = Suc (next_handle s), delay = 3000, action = Hide_progress_and_clear_id\<rparr>"
    unfolding to find_append_None[OF old] by simp
  have sec: "progressSection ?s' = progressSection s"
    using response_keeps_section_and_id[of "Poll_json p" s] by simp
  show ?thesis
    unfolding step_def
    by (simp add: found run_timeout_def hideProgressSection_def sec)
qed

text \<open>
  Claim C1, amended: when the button is on the page and a response reports a terminal
  state, the callback clears the interval whose handle is stored, shows the completion
  or failure message and enables the download button again.  It leaves the progress
  section and the stored job identifier as they were, and sets a timeout with a fixed delay;
  only when that timeout fires is the progress section hidden and the job identifier
  set to null.  The delay is 3000 ms in the second listing and 2000 ms in the first,
  which needs the progress elements to be on the page.
\<close>

theorem terminal_response_stops_notifies_enables_schedules:
  assumes "downloadBtn s \<noteq> None"
  shows "(phase_of p \<noteq> In_progress \<longrightarrow>
            \<not> polling (monitorProgress_response (Poll_json p) s) \<and>
            intervals (monitorProgress_response (Poll_json p) s) =
              intervals_without (progressInterval s) (intervals s) \<and>
            notifications (monitorProgress_response (Poll_json p) s) =
              notifications s @ [\<lparr>nid = next_handle s, notice = terminal_notice p\<rparr>] \<and>
            downloadBtn (monitorProgress_response (Poll_json p) s) =
              Some \<lparr>disabled = False, innerHTML = download_label\<rparr> \<and>
            timeouts (monitorProgress_response (Poll_json p) s) =
              timeouts_without (progressInterval s) (timeouts s) @
                [\<lparr>handle = next_handle s, delay = 5000, action = Remove_notification (next_handle s)\<rparr>,
                 \<lparr>handle = Suc (next_handle s), delay = 3000, action = Hide_progress_and_clear_id\<rparr>] \<and>
            progressSection (monitorProgress_response (Poll_json p) s) = progressSection s \<and>
            currentDownloadId (monitorProgress_response (Poll_json p) s) = currentDownloadId s) \<and>
         (phase_of_v1 p \<noteq> In_progress \<and> progressFill s \<noteq> None \<and> progressText s \<noteq> None \<and>
          progressStatus s \<noteq> None \<longrightarrow>
            \<not> polling (monitorProgress_response_v1 (Poll_json p) s) \<and>
            intervals (monitorProgress_response_v1 (Poll_json p) s) =
              intervals_without (progressInterval s) (intervals s) \<and>
            alerts (monitorProgress_response_v1 (Poll_json p) s) = alerts s @ [terminal_alert p] \<and>
            downloadBtn (monitorProgress_response_v1 (Poll_json p) s) =
              Some \<lparr>disabled = False, innerHTML = download_label\<rparr> \<and>
            timeouts (monitorProgress_response_v1 (Poll_json p) s) =
              timeouts_without (progressInterval s) (timeouts s) @
                [\<lparr>handle = next_handle s, delay = 2000, action = Hide_progress_and_clear_id\<rparr>] \<and>
            progressSection (monitorProgress_response_v1 (Poll_json p) s) = progressSection s \<and>
            currentDownloadId (monitorProgress_response_v1 (Poll_json p) s) = currentDownloadId s) \<and>
         (phase_of p \<noteq> In_progress \<and> timers_issued s \<longrightarrow>
            (\<exists>t. step (Timeout_fires (Suc (next_handle s))) (monitorProgress_response (Poll_json p) s) = Some t \<and>
                 currentDownloadId t = None \<and>
                 progressSection t = map_option (\<lambda>h. True) (progressSection s))) \<and>
         currentDownloadId (run_timeout Hide_progress_and_clear_id t) = None \<and>
         progressSection (run_timeout Hide_progress_and_clear_id t) =
           map_option (\<lambda>h. True) (progressSection t) \<and>
         (progressSection t \<noteq> None \<longrightarrow>
            currentDownloadId (run_timeout_v1 Hide_progress_and_clear_id t) = None \<and>
            progressSection (run_timeout_v1 Hide_progress_and_clear_id t) = Some True)"
proof -
  have second: "\<not> polling (monitorProgress_response (Poll_json p) s)" if "phase_of p \<noteq> In_progress"
    using terminal_slot[OF that] terminal_intervals[OF that] by (rule not_polling_without)
  have first: "\<not> polling (monitorProgress_response_v1 (Poll_json p) s)"
    if "phase_of_v1 p \<noteq> In_progress" "progressFill s \<noteq> None" "progressText s \<noteq> None"
      "progressStatus s \<noteq> None"
    using terminal_v1(2)[OF that assms] terminal_v1(1)[OF that assms] by (rule not_polling_without)
  have A: "phase_of p \<noteq> In_progress \<longrightarrow>
            \<not> polling (monitorProgress_response (Poll_json p) s) \<and>
            intervals (monitorProgress_response (Poll_json p) s) =
              intervals_without (progressInterval s) (intervals s) \<and>
            notifications (monitorProgress_response (Poll_json p) s) =
              notifications s @ [\<lparr>nid = next_handle s, notice = terminal_notice p\<rparr>] \<and>
            downloadBtn (monitorProgress_response (Poll_json p) s) =
              Some \<lparr>disabled = False, innerHTML = download_label\<rparr> \<and>
            timeouts (monitorProgress_response (Poll_json p) s) =
              timeouts_without (progressInterval s) (timeouts s) @
                [\<lparr>handle = next_handle s, delay = 5000, action = Remove_notification (next_handle s)\<rparr>,
                 \<lparr>handle = Suc (next_handle s), delay = 3000, action = Hide_progress_and_clear_id\<rparr>] \<and>
            progressSection (monitorProgress_response (Poll_json p) s) = progressSection s \<and>
            currentDownloadId (monitorProgress_response (Poll_json p) s) = currentDownloadId s"
    by (simp add: second terminal_intervals terminal_notifications terminal_button[OF _ assms]
          terminal_timeouts[OF _ assms] response_keeps_section_and_id)
  have B: "phase_of_v1 p \<noteq> In_progress \<and> progressFill s \<noteq> None \<and> progressText s \<noteq> None \<and>
          progressStatus s \<noteq> None \<longrightarrow>
            \<not> polling (monitorProgress_response_v1 (Poll_json p) s) \<and>
            intervals (monitorProgress_response_v1 (Poll_json p) s) =
              intervals_without (progressInterval s) (intervals s) \<and>
            alerts (monitorProgress_response_v1 (Poll_json p) s) = alerts s @ [terminal_alert p] \<and>
            downloadBtn (monitorProgress_response_v1 (Poll_json p) s) =
              Some \<lparr>disabled = False, innerHTML = download_label\<rparr> \<and>
            timeouts (monitorProgress_response_v1 (Poll_json p) s) =
              timeouts_without (progressInterval s) (timeouts s) @
                [\<lparr>handle = next_handle s, delay = 2000, action = Hide_progress_and_clear_id\<rparr>] \<and>
            progressSection (monitorProgress_response_v1 (Poll_json p) s) = progressSection s \<and>
            currentDownloadId (monitorProgress_response_v1 (Poll_json p) s) = currentDownloadId s"
    by (simp add: first terminal_v1[OF _ _ _ _ assms] response_v1_keeps_section_and_id)
  have D: "phase_of p \<noteq> In_progress \<and> timers_issued s \<longrightarrow>
            (\<exists>t. step (Timeout_fires (Suc (next_handle s))) (monitorProgress_response (Poll_json p) s) = Some t \<and>
                 currentDownloadId t = None \<and>
                 progressSection t = map_option (\<lambda>h. True) (progressSection s))"
    using grace_timer_fires[OF _ assms, of p] by blast
  have C: "currentDownloadId (run_timeout Hide_progress_and_clear_id t) = None \<and>
         progressSection (run_timeout Hide_progress_and_clear_id t) =
           map_option (\<lambda>h. True) (progressSection t) \<and>
         (progressSection t \<noteq> None \<longrightarrow>
            currentDownloadId (run_timeout_v1 Hide_progress_and_clear_id t) = None \<and>
            progressSection (run_timeout_v1 Hide_progress_and_clear_id t) = Some True)"
    using run_timeout_hide[of t] run_timeout_v1_hide[of t] by simp
  show ?thesis
    by (rule conjI[OF A conjI[OF B conjI[OF D C]]])
qed

text \<open>A completed job in the sample session.\<close>

theorem terminal_response_witness:
  "intervals (monitorProgress_response completed_reply polling_state) = [] \<and>
   notifications (monitorProgress_response completed_reply polling_state) =
     [\<lparr>nid = 2, notice = Notification ''Download completed!'' ''success''\<rparr>] \<and>
   downloadBtn (monitorProgress_response completed_reply polling_state) =
     Some \<lparr>disabled = False, innerHTML = download_label\<rparr> \<and>
   timeouts (monitorProgress_response completed_reply polling_state) =
     [\<lparr>handle = 2, delay = 5000, action = Remove_notification 2\<rparr>,
      \<lparr>handle = 3, delay = 3000, action = Hide_progress_and_clear_id\<rparr>] \<and>
   progressSection (monitorProgress_response completed_reply polling_state) = Some False \<and>
   currentDownloadId (monitorProgress_response completed_reply polling_state) = Some ''job1'' \<and>
   alerts (monitorProgress_response_v1 completed_reply polling_state) = [''Success: Download completed!''] \<and>
   timeouts (monitorProgress_response_v1 completed_reply polling_state) =
     [\<lparr>handle = 2, delay = 2000, action = Hide_progress_and_clear_id\<rparr>] \<and>
   progressSection (monitorProgress_response_v1 completed_reply polling_state) = Some False \<and>
   currentDownloadId (monitorProgress_response_v1 completed_reply polling_state) = Some ''job1'' \<and>
   (\<exists>t. step (Timeout_fires 3) (monitorProgress_response completed_reply polling_state) = Some t \<and>
        currentDownloadId t = None \<and> progressSection t = Some True) \<and>
   currentDownloadId (run_timeout Hide_progress_and_clear_id polling_state) = None \<and>
   progressSection (run_timeout Hide_progress_and_clear_id polling_state) = Some True \<and>
   currentDownloadId (run_timeout_v1 Hide_progress_and_clear_id polling_state) = None"
proof -
  have btn: "downloadBtn polling_state \<noteq> None"
    by (simp add: sample_defs)
  have ph: "phase_of (status_shape ''completed'' 100 None) \<noteq> In_progress"
    "phase_of_v1 (status_shape ''completed'' 100 None) \<noteq> In_progress"
    by (simp_all add: phase_of_def phase_of_v1_def status_shape_def)
  have page: "progressFill polling_state \<noteq> None" "progressText polling_state \<noteq> None"
    "progressStatus polling_state \<noteq> None" "progressSection polling_state \<noteq> None"
    "timers_issued polling_state"
    by (simp_all add: sample_defs timers_issued_def)
  have vals: "progressInterval polling_state = Some 1" "intervals polling_state = [1]"
    "timeouts polling_state = []" "notifications polling_state = []" "alerts polling_state = []"
    "next_handle polling_state = 2" "progressSection polling_state = Some False"
    "currentDownloadId polling_state = Some ''job1''"
    by (simp_all add: sample_defs)
  have msg: "terminal_notice (status_shape ''completed'' 100 None) = Notification ''Download completed!'' ''success''"
    "terminal_alert (status_shape ''completed'' 100 None) = ''Success: Download completed!''"
    by (simp_all add: terminal_notice_def terminal_alert_def phase_of_def phase_of_v1_def status_shape_def)
  have three: "Suc 2 = 3"
    by simp
  from terminal_response_stops_notifies_enables_schedules
         [OF btn, of "status_shape ''completed'' 100 None" polling_state]
  show ?thesis
    using ph page unfolding completed_reply_def
    by (simp add: vals msg intervals_without_def timeouts_without_def three del: One_nat_def)
qed

text \<open>
  Claim C1, as stated, fails on the first listing: the timeout it sets waits 2000 ms,
  and no timeout of 3000 ms exists afterwards.
\<close>

theorem first_listing_waits_2000:
  "map delay (grace_timers (monitorProgress_response_v1 completed_reply polling_state)) = [2000] \<and>
   3000 \<notin> set (map delay (timeouts (monitorProgress_response_v1 completed_reply polling_state)))"
  by (simp add: grace_timers_def sample_defs response_v1_defs)

text \<open>
  Claim C3: for a response with \<open>finished\<close> true and a non-empty \<open>error\<close> the callback
  of the second listing shows the error status and the failure message with that
  error and stops polling; it shows no completion message and asks for no new list.
\<close>

theorem finished_with_error_is_failure:
  assumes "finished p = Some True" and "error p = Some x" and "x \<noteq> []"
  shows "phase_of p = Failed \<and>
         progressStatus (monitorProgress_response (Poll_json p) s) =
           map_option (\<lambda>t. ''Error occurred'') (progressStatus s) \<and>
         notifications (monitorProgress_response (Poll_json p) s) =
           notifications s @ [\<lparr>nid = next_handle s, notice = Notification (''Download failed: '' @ x) ''error''\<rparr>] \<and>
         shown (Notification ''Download completed!'' ''success'') (monitorProgress_response (Poll_json p) s) =
           shown (Notification ''Download completed!'' ''success'') s \<and>
         list_requests (monitorProgress_response (Poll_json p) s) = list_requests s \<and>
         \<not> polling (monitorProgress_response (Poll_json p) s)"
proof -
  have ph: "phase_of p = Failed"
    using assms by (simp add: phase_of_def truthy_def)
  then have terminal: "phase_of p \<noteq> In_progress"
    by simp
  have msg: "terminal_notice p = Notification (''Download failed: '' @ x) ''error''"
    using ph assms(2) by (simp add: terminal_notice_def str_def)
  have "\<not> polling (monitorProgress_response (Poll_json p) s)"
    using terminal_slot[OF terminal] terminal_intervals[OF terminal] by (rule not_polling_without)
  then show ?thesis
    using ph by (simp add: terminal_status[OF terminal] terminal_notifications[OF terminal]
        terminal_list_requests[OF terminal] msg shown_def)
qed

theorem finished_with_error_witness:
  "progressStatus (monitorProgress_response (Poll_json (finished_shape True 40 (Some ''x''))) polling_state) =
     Some ''Error occurred'' \<and>
   notifications (monitorProgress_response (Poll_json (finished_shape True 40 (Some ''x''))) polling_state) =
     [\<lparr>nid = 2, notice = Notification ''Download failed: x'' ''error''\<rparr>] \<and>
   list_requests (monitorProgress_response (Poll_json (finished_shape True 40 (Some ''x''))) polling_state) = 1 \<and>
   \<not> polling (monitorProgress_response (Poll_json (finished_shape True 40 (Some ''x''))) polling_state)"
proof -
  have vals: "progressStatus polling_state = Some []" "notifications polling_state = []"
    "next_handle polling_state = 2" "list_requests polling_state = 1"
    by (simp_all add: sample_defs)
  from finished_with_error_is_failure[of "finished_shape True 40 (Some ''x'')" "''x''" polling_state]
  show ?thesis
    by (simp add: finished_shape_def vals shown_def)
qed

text \<open>
  Claim C6: a poll whose request or whose JSON parsing fails is logged and changes
  nothing else, in both listings.  A poll that reports no terminal state, failed or
  not, leaves the intervals, the timeouts, the messages, the job identifier, the stored
  handle and the button as they were; so only a reported terminal state ends a job.
\<close>

theorem failed_poll_is_logged_and_ignored:
  "monitorProgress_response Poll_failed s = s\<lparr>console := console s @ [''Error monitoring progress:'']\<rparr> \<and>
   monitorProgress_response_v1 Poll_failed s = s\<lparr>console := console s @ [''Error monitoring progress:'']\<rparr> \<and>
   (reported r \<noteq> Some Completed \<and> reported r \<noteq> Some Failed \<longrightarrow>
      intervals (monitorProgress_response r s) = intervals s \<and>
      timeouts (monitorProgress_response r s) = timeouts s \<and>
      notifications (monitorProgress_response r s) = notifications s \<and>
      currentDownloadId (monitorProgress_response r s) = currentDownloadId s \<and>
      progressInterval (monitorProgress_response r s) = progressInterval s \<and>
      downloadBtn (monitorProgress_response r s) = downloadBtn s \<and>
      list_requests (monitorProgress_response r s) = list_requests s) \<and>
   (reported_v1 r \<noteq> Some Completed \<and> reported_v1 r \<noteq> Some Failed \<longrightarrow>
      intervals (monitorProgress_response_v1 r s) = intervals s \<and>
      timeouts (monitorProgress_response_v1 r s) = timeouts s \<and>
      alerts (monitorProgress_response_v1 r s) = alerts s \<and>
      currentDownloadId (monitorProgress_response_v1 r s) = currentDownloadId s \<and>
      progressInterval (monitorProgress_response_v1 r s) = progressInterval s \<and>
      downloadBtn (monitorProgress_response_v1 r s) = downloadBtn s \<and>
      list_requests (monitorProgress_response_v1 r s) = list_requests s)"
  using in_progress_frame[of r s] in_progress_v1_frame[of r s]
  by (simp add: response_failed response_v1_failed)

theorem failed_poll_witness:
  "polling (monitorProgress_response Poll_failed polling_state) \<and>
   polling (monitorProgress_response_v1 Poll_failed polling_state) \<and>
   intervals (monitorProgress_response Poll_failed polling_state) = [1] \<and>
   notifications (monitorProgress_response Poll_failed polling_state) = [] \<and>
   currentDownloadId (monitorProgress_response Poll_failed polling_state) = Some ''job1'' \<and>
   console (monitorProgress_response Poll_failed polling_state) = [''Error monitoring progress:''] \<and>
   alerts (monitorProgress_response_v1 Poll_failed polling_state) = []"
proof -
  have vals: "intervals polling_state = [1]" "progressInterval polling_state = Some 1"
    "notifications polling_state = []" "alerts polling_state = []" "console polling_state = []"
    "currentDownloadId polling_state = Some ''job1''"
    by (simp_all add: sample_defs)
  have "reported Poll_failed \<noteq> Some Completed \<and> reported Poll_failed \<noteq> Some Failed"
    "reported_v1 Poll_failed \<noteq> Some Completed \<and> reported_v1 Poll_failed \<noteq> Some Failed"
    by (simp_all add: reported_def reported_v1_def)
  with failed_poll_is_logged_and_ignored[of polling_state Poll_failed]
  show ?thesis
    by (simp add: vals polling_def)
qed

lemma shapes_in_progress:
  "monitorProgress_response (Poll_json (finished_shape False x e)) s =
   monitorProgress_response (Poll_json (status_shape ''downloading'' x e')) s"
  by (simp add: monitorProgress_response_def updateProgress_def finished_shape_def status_shape_def)

lemma shapes_completed:
  "\<not> truthy e \<Longrightarrow>
   monitorProgress_response (Poll_json (finished_shape True x e)) s =
   monitorProgress_response (Poll_json (status_shape ''completed'' x e')) s"
  by (simp add: monitorProgress_response_def updateProgress_def finished_shape_def status_shape_def)

lemma shapes_failed:
  "truthy e \<Longrightarrow>
   monitorProgress_response (Poll_json (finished_shape True x e)) s =
   monitorProgress_response (Poll_json (status_shape ''error'' x e)) s"
  by (simp add: monitorProgress_response_def updateProgress_def finished_shape_def status_shape_def)

lemma shapes_other_status:
  "st \<noteq> ''completed'' \<Longrightarrow> st \<noteq> ''error'' \<Longrightarrow>
   monitorProgress_response (Poll_json (status_shape st x e)) s =
   (monitorProgress_response (Poll_json (finished_shape False x e')) s)
     \<lparr>progressStatus := map_option (\<lambda>t. status_text (Some st)) (progressStatus s)\<rparr>"
  by (simp add: monitorProgress_response_def updateProgress_def finished_shape_def status_shape_def)

lemma shapes_phase:
  "phase_of (finished_shape False x e) = In_progress \<and>
   phase_of (status_shape ''downloading'' x e) = In_progress \<and>
   phase_of (finished_shape True x e) = (if truthy e then Failed else Completed) \<and>
   phase_of (status_shape ''completed'' x e) = Completed \<and>
   phase_of (status_shape ''error'' x e) = Failed"
  by (simp add: phase_of_def finished_shape_def status_shape_def)

lemma finished_shape_v1:
  "intervals (monitorProgress_response_v1 (Poll_json (finished_shape b x e)) s) = intervals s \<and>
   timeouts (monitorProgress_response_v1 (Poll_json (finished_shape b x e)) s) = timeouts s \<and>
   alerts (monitorProgress_response_v1 (Poll_json (finished_shape b x e)) s) = alerts s \<and>
   downloadBtn (monitorProgress_response_v1 (Poll_json (finished_shape b x e)) s) = downloadBtn s \<and>
   currentDownloadId (monitorProgress_response_v1 (Poll_json (finished_shape b x e)) s) = currentDownloadId s"
proof -
  have "reported_v1 (Poll_json (finished_shape b x e)) = Some In_progress"
    by (simp add: reported_v1_def phase_of_v1_def finished_shape_def)
  then show ?thesis
    using in_progress_v1_frame[of "Poll_json (finished_shape b x e)" s] by simp
qed

text \<open>
  Claim C4, amended: the callback of the second listing treats a response with
  \<open>finished\<close> and the response with the matching \<open>status\<close> alike: \<open>finished\<close> false as
  \<open>downloading\<close>, \<open>finished\<close> true without an error as \<open>completed\<close>, \<open>finished\<close> true with
  an error as \<open>error\<close> with that error; the page and the controller end in the same
  state.  Any other status (such as \<open>pending\<close>) differs from \<open>finished\<close> false in the
  status text alone.  The callback of the first listing reads \<open>status\<close> only: a response
  with \<open>finished\<close> never stops the interval, shows no message and sets no timeout.
\<close>

theorem both_shapes_same_transitions:
  "phase_of (finished_shape False x e) = In_progress \<and>
   phase_of (status_shape ''downloading'' x e) = In_progress \<and>
   phase_of (finished_shape True x e) = (if truthy e then Failed else Completed) \<and>
   phase_of (status_shape ''completed'' x e) = Completed \<and>
   phase_of (status_shape ''error'' x e) = Failed \<and>
   monitorProgress_response (Poll_json (finished_shape False x e)) s =
     monitorProgress_response (Poll_json (status_shape ''downloading'' x e')) s \<and>
   (\<not> truthy e \<longrightarrow>
      monitorProgress_response (Poll_json (finished_shape True x e)) s =
      monitorProgress_response (Poll_json (status_shape ''completed'' x e')) s) \<and>
   (truthy e \<longrightarrow>
      monitorProgress_response (Poll_json (finished_shape True x e)) s =
      monitorProgress_response (Poll_json (status_shape ''error'' x e)) s) \<and>
   (st \<noteq> ''completed'' \<and> st \<noteq> ''error'' \<longrightarrow>
      monitorProgress_response (Poll_json (status_shape st x e)) s =
      (monitorProgress_response (Poll_json (finished_shape False x e')) s)
        \<lparr>progressStatus := map_option (\<lambda>t. status_text (Some st)) (progressStatus s)\<rparr>) \<and>
   intervals (monitorProgress_response_v1 (Poll_json (finished_shape b x e)) s) = intervals s \<and>
   timeouts (monitorProgress_response_v1 (Poll_json (finished_shape b x e)) s) = timeouts s \<and>
   alerts (monitorProgress_response_v1 (Poll_json (finished_shape b x e)) s) = alerts s \<and>
   downloadBtn (monitorProgress_response_v1 (Poll_json (finished_shape b x e)) s) = downloadBtn s \<and>
   currentDownloadId (monitorProgress_response_v1 (Poll_json (finished_shape b x e)) s) = currentDownloadId s"
  using shapes_phase[of x e] shapes_in_progress[of x e s e'] shapes_completed[of e x s e']
    shapes_failed[of e x s] shapes_other_status[of st x e s e'] finished_shape_v1[of b x e s]
  by simp

theorem both_shapes_witness:
  "monitorProgress_response (Poll_json (finished_shape True 100 None)) polling_state =
     monitorProgress_response completed_reply polling_state \<and>
   monitorProgress_response (Poll_json (finished_shape True 40 (Some ''x''))) polling_state =
     monitorProgress_response (Poll_json (status_shape ''error'' 40 (Some ''x''))) polling_state \<and>
   monitorProgress_response (Poll_json (status_shape ''pending'' 0 None)) polling_state =
     (monitorProgress_response (Poll_json (finished_shape False 0 None)) polling_state)
        \<lparr>progressStatus := Some ''Processing...''\<rparr> \<and>
   intervals (monitorProgress_response_v1 (Poll_json (finished_shape True 100 None)) polling_state) = [1]"
proof -
  have vals: "intervals polling_state = [1]" "progressStatus polling_state = Some []"
    by (simp_all add: sample_defs)
  have t: "\<not> truthy None" "truthy (Some ''x'')" "''pending'' \<noteq> ''completed'' \<and> ''pending'' \<noteq> ''error''"
    by (simp_all add: truthy_def)
  from both_shapes_same_transitions[of 100 None polling_state None "''pending''" True]
    both_shapes_same_transitions[of 40 "Some ''x''" polling_state None "''pending''" True]
    both_shapes_same_transitions[of 0 None polling_state None "''pending''" True]
  show ?thesis
    using t by (simp add: vals completed_reply_def status_text_def)
qed

text \<open>
  Claim C4, as stated, fails on the first listing: in the sample session the response
  \<open>{finished: true, progress: 100}\<close> leaves the interval running, the response
  \<open>{status: "completed", progress: 100}\<close> stops it.
\<close>

theorem first_listing_ignores_finished:
  "intervals (monitorProgress_response_v1 (Poll_json (finished_shape True 100 None)) polling_state) = [1] \<and>
   intervals (monitorProgress_response_v1 (Poll_json (status_shape ''completed'' 100 None)) polling_state) = []"
  by (simp add: sample_defs response_v1_defs)

lemma clearInterval_idem: "clearInterval h (clearInterval h s) = clearInterval h s"
  by (cases h) (simp_all add: clearInterval_def)

lemma intervals_without_idem: "intervals_without h (intervals_without h xs) = intervals_without h xs"
  by (cases h) (simp_all add: intervals_without_def)

lemma timeouts_without_new:
  assumes "handle_issued s"
  shows "timeouts_without (progressInterval s)
           (timeouts_without (progressInterval s) ts @
              [\<lparr>handle = next_handle s, delay = a, action = x\<rparr>,
               \<lparr>handle = Suc (next_handle s), delay = b, action = y\<rparr>]) =
         timeouts_without (progressInterval s) ts @
              [\<lparr>handle = next_handle s, delay = a, action = x\<rparr>,
               \<lparr>handle = Suc (next_handle s), delay = b, action = y\<rparr>]"
  using assms by (cases "progressInterval s") (auto simp: timeouts_without_def handle_issued_def)

text \<open>
  Claim C5, amended: clearing the interval is idempotent, so a second terminal response
  leaves the running intervals, the stored handle and the enabled button as the first
  one left them.  The other terminal actions are not guarded: every terminal response
  appends its own message and sets its own timeout of 3000 ms, and every completed one
  asks for the list again.
\<close>

theorem second_terminal_response_repeats_the_actions:
  assumes "phase_of p \<noteq> In_progress" and "phase_of q \<noteq> In_progress"
    and "downloadBtn s \<noteq> None" and "handle_issued s"
    and "monitorProgress_response (Poll_json p) s = s1"
    and "monitorProgress_response (Poll_json q) s1 = s2"
  shows "clearInterval h (clearInterval h s) = clearInterval h s \<and>
         intervals s2 = intervals s1 \<and>
         progressInterval s2 = progressInterval s1 \<and>
         \<not> polling s2 \<and>
         downloadBtn s2 = downloadBtn s1 \<and>
         notifications s2 = notifications s1 @ [\<lparr>nid = next_handle s1, notice = terminal_notice q\<rparr>] \<and>
         length (grace_timers s2) = Suc (length (grace_timers s1)) \<and>
         list_requests s2 = (if phase_of q = Completed then Suc (list_requests s1) else list_requests s1)"
proof -
  have slot1: "progressInterval s1 = progressInterval s"
    using terminal_slot[OF assms(1), of s] assms(5) by simp
  have int1: "intervals s1 = intervals_without (progressInterval s) (intervals s)"
    using terminal_intervals[OF assms(1), of s] assms(5) by simp
  have btn1: "downloadBtn s1 = Some \<lparr>disabled = False, innerHTML = download_label\<rparr>"
    using terminal_button[OF assms(1,3)] assms(5) by simp
  then have btn1': "downloadBtn s1 \<noteq> None"
    by simp
  have to1: "timeouts s1 = timeouts_without (progressInterval s) (timeouts s) @
             [\<lparr>handle = next_handle s, delay = 5000, action = Remove_notification (next_handle s)\<rparr>,
              \<lparr>handle = Suc (next_handle s), delay = 3000, action = Hide_progress_and_clear_id\<rparr>]"
    using terminal_timeouts[OF assms(1,3)] assms(5) by simp
  have slot2: "progressInterval s2 = progressInterval s1"
    using terminal_slot[OF assms(2), of s1] assms(6) by simp
  have int2: "intervals s2 = intervals s1"
    using terminal_intervals[OF assms(2), of s1] assms(6)
    by (simp add: slot1 int1 intervals_without_idem)
  have int2': "intervals s2 = intervals_without (progressInterval s) (intervals s)"
    using int2 int1 by simp
  have np: "\<not> polling s2"
    using slot2[unfolded slot1] int2' by (rule not_polling_without)
  have btn2: "downloadBtn s2 = downloadBtn s1"
    using terminal_button[OF assms(2) btn1'] assms(6) btn1 by simp
  have not2: "notifications s2 = notifications s1 @ [\<lparr>nid = next_handle s1, notice = terminal_notice q\<rparr>]"
    using terminal_notifications[OF assms(2), of s1] assms(6) by simp
  have to2: "timeouts s2 = timeouts s1 @
             [\<lparr>handle = next_handle s1, delay = 5000, action = Remove_notification (next_handle s1)\<rparr>,
              \<lparr>handle = Suc (next_handle s1), delay = 3000, action = Hide_progress_and_clear_id\<rparr>]"
    using terminal_timeouts[OF assms(2) btn1'] assms(6)
    by (simp add: slot1 to1 timeouts_without_new[OF assms(4)])
  have gr: "length (grace_timers s2) = Suc (length (grace_timers s1))"
    by (simp add: grace_timers_def to2)
  have lr: "list_requests s2 = (if phase_of q = Completed then Suc (list_requests s1) else list_requests s1)"
    using terminal_list_requests[OF assms(2), of s1] assms(6) by simp
  show ?thesis
    by (intro conjI clearInterval_idem int2 slot2 np btn2 not2 gr lr)
qed

theorem second_terminal_response_witness:
  "intervals (monitorProgress_response completed_reply (monitorProgress_response completed_reply polling_state)) = [] \<and>
   map notice (notifications
     (monitorProgress_response completed_reply (monitorProgress_response completed_reply polling_state))) =
     [Notification ''Download completed!'' ''success'', Notification ''Download completed!'' ''success''] \<and>
   length (grace_timers
     (monitorProgress_response completed_reply (monitorProgress_response completed_reply polling_state))) = 2 \<and>
   list_requests
     (monitorProgress_response completed_reply (monitorProgress_response completed_reply polling_state)) = 3"
proof -
  let ?p = "status_shape ''completed'' 100 None"
  let ?s1 = "monitorProgress_response (Poll_json ?p) polling_state"
  have ph: "phase_of ?p \<noteq> In_progress" "phase_of ?p = Completed"
    by (simp_all add: phase_of_def status_shape_def)
  have btn: "downloadBtn polling_state \<noteq> None" and hi: "handle_issued polling_state"
    by (simp_all add: sample_defs handle_issued_def)
  have one: "intervals ?s1 = []" "notifications ?s1 = [\<lparr>nid = 2, notice = Notification ''Download completed!'' ''success''\<rparr>]"
    "length (grace_timers ?s1) = 1" "list_requests ?s1 = 2" "next_handle ?s1 = 4"
    by (simp_all add: sample_defs response_defs grace_timers_def)
  have msg: "terminal_notice ?p = Notification ''Download completed!'' ''success''"
    by (simp add: terminal_notice_def ph)
  from second_terminal_response_repeats_the_actions[OF ph(1) ph(1) btn hi refl refl, of None]
  show ?thesis
    unfolding completed_reply_def by (simp add: one msg ph)
qed

text \<open>
  Claim C5, as stated, fails: with two polls in flight that both report completion the
  page shows the completion message twice, holds two timeouts that will hide the
  progress section, and the list was requested twice more.
\<close>

theorem two_replies_two_messages:
  "map_option (\<lambda>s. (shown (Notification ''Download completed!'' ''success'') s,
                     length (grace_timers s), list_requests s, intervals s))
     (run [Start_download ''https://youtu.be/a'', Download_reply (ok_reply ''job1''),
           Interval_fires 1, Interval_fires 1,
           Poll_reply 0 completed_reply, Poll_reply 0 completed_reply] new_YouTubeDownloader)
   = Some (2, 2, 3, [])"
  by code_simp

subsection \<open>Two downloads at once, and deleting beside the player\<close>

lemma monitorProgress_adds_interval:
  "intervals (monitorProgress s) = intervals s @ [next_handle s] \<and>
   progressInterval (monitorProgress s) = Some (next_handle s)"
  by (simp add: monitorProgress_def showProgressSection_def)

lemma deleteFile_player:
  assumes "audioPlayer s = Some a"
  shows "audioPlayer (deleteFile resolve True (Delete_json True e) file s) =
           (if js_includes (src_of resolve a) file then Some (a\<lparr>paused := True, currentTime := 0\<rparr>) else Some a) \<and>
         audioPlayerSection (deleteFile resolve True (Delete_json True e) file s) =
           (if js_includes (src_of resolve a) file then map_option (\<lambda>h. True) (audioPlayerSection s)
            else audioPlayerSection s)"
  using assms
  by (simp add: deleteFile_def stopAudio_def loadDownloads_def showSuccess_def showNotification_def
        setTimeout_def)

lemma deleteFile_v1_player:
  assumes "audioPlayer s = Some a"
  shows "audioPlayer (deleteFile_v1 resolve True (Delete_json True e) file s) =
           (if js_includes (src_of resolve a) file then Some (a\<lparr>paused := True, currentTime := 0\<rparr>) else Some a) \<and>
         audioPlayerSection (deleteFile_v1 resolve True (Delete_json True e) file s) =
           (if js_includes (src_of resolve a) file then map_option (\<lambda>h. True) (audioPlayerSection s)
            else audioPlayerSection s)"
  using assms
  by (simp add: deleteFile_v1_def stopAudio_v1_def loadDownloads_def showSuccess_v1_def)


text \<open>
  Claim C2 fails on the code.  The Enter key calls \<open>startDownload\<close> while the button
  is disabled, and \<open>monitorProgress\<close> starts its interval without clearing the one it
  holds: after two accepted downloads the intervals 1 and 3 are both running, and only
  3 is stored.  When the second job has completed and its timeout has fired, interval
  1 still runs and asks for the progress of the job \<open>null\<close>.
\<close>

theorem second_download_leaves_two_intervals:
  "map_option (\<lambda>s. (intervals s, progressInterval s, currentDownloadId s))
     (run [Start_download ''https://youtu.be/a'', Download_reply (ok_reply ''job1''),
           Start_download ''https://youtu.be/b'', Download_reply (ok_reply ''job2'')]
        new_YouTubeDownloader)
   = Some ([1, 3], Some 3, Some ''job2'') \<and>
   map_option (\<lambda>s. (intervals s, progressInterval s, currentDownloadId s, polls_in_flight s))
     (run [Start_download ''https://youtu.be/a'', Download_reply (ok_reply ''job1''),
           Start_download ''https://youtu.be/b'', Download_reply (ok_reply ''job2''),
           Interval_fires 3, Poll_reply 0 completed_reply, Timeout_fires 6, Interval_fires 1]
        new_YouTubeDownloader)
   = Some ([1], Some 3, None, [None])"
  by code_simp

text \<open>
  Claim C9 fails on the code.  \<open>deleteFile\<close> asks whether the address of the loaded
  audio contains the deleted name: while \<open>ba.mp3\<close> is playing, the successful delete of
  the other file \<open>a.mp3\<close> pauses the player and hides its section, in both listings.
\<close>

theorem deleting_another_file_stops_playback:
  "audioPlayer playing_state = Some \<lparr>src = Some ''/play-audio/ba.mp3'', paused = False, currentTime = 0\<rparr> \<and>
   audioPlayerSection playing_state = Some False \<and>
   audioPlayer (deleteFile localhost True (Delete_json True None) ''a.mp3'' playing_state) =
     Some \<lparr>src = Some ''/play-audio/ba.mp3'', paused = True, currentTime = 0\<rparr> \<and>
   audioPlayerSection (deleteFile localhost True (Delete_json True None) ''a.mp3'' playing_state) = Some True \<and>
   audioPlayer (deleteFile_v1 localhost True (Delete_json True None) ''a.mp3'' playing_state) =
     Some \<lparr>src = Some ''/play-audio/ba.mp3'', paused = True, currentTime = 0\<rparr> \<and>
   audioPlayerSection (deleteFile_v1 localhost True (Delete_json True None) ''a.mp3'' playing_state) = Some True"
proof -
  have p: "audioPlayer playing_state = Some \<lparr>src = Some ''/play-audio/ba.mp3'', paused = False, currentTime = 0\<rparr>"
    "audioPlayerSection playing_state = Some False"
    by (simp_all add: playing_state_def playAudio_def new_YouTubeDownloader_def showSuccess_def
          showNotification_def setTimeout_def)
  have inc: "js_includes (src_of localhost \<lparr>src = Some ''/play-audio/ba.mp3'', paused = False, currentTime = 0\<rparr>) ''a.mp3''"
    by (simp add: src_of_def localhost_def)
  show ?thesis
    using deleteFile_player[OF p(1), of localhost None "''a.mp3''"]
      deleteFile_v1_player[OF p(1), of localhost None "''a.mp3''"]
    by (simp add: p inc)
qed

end
